theory Spec2Isabelle
  imports Main "HOL-Library.Word"
begin

section \<open>The transport layer of amqpy (src/amqpy/transport.py)\<close>

text \<open>
  The module turns a byte stream (a plain or a TLS socket) into AMQP 0.9.1 frames.
  The sockets, the \<^verbatim>\<open>ssl\<close> module and address resolution belong to Python's
  library; here a socket is a value that carries the script of what its successive calls
  will meet, so that every method of the transport is a function from the state before the
  call to the outcome and the state after it.

  An outcome is \<open>Some (Inr v, t')\<close> when the method returns \<open>v\<close>,
  \<open>Some (Inl exc, t')\<close> when it raises \<open>exc\<close>, and \<open>None\<close> when the call
  never comes back: the sockets are blocking, and a call for which the script holds no
  further event waits forever.
\<close>

subsection \<open>Exceptions\<close>

type_synonym byte = "8 word"

text \<open>
  The exceptions that travel through the module. Since Python 3.3 \<^verbatim>\<open>IOError\<close> and
  \<^verbatim>\<open>socket.error\<close> are names of \<^verbatim>\<open>OSError\<close>, and
  \<^verbatim>\<open>socket.timeout\<close> and \<^verbatim>\<open>ssl.SSLError\<close> are subclasses of it. Each
  carries its \<^verbatim>\<open>errno\<close> attribute (\<open>None\<close> when the exception was built from
  a message only) and the text \<^verbatim>\<open>str(exc)\<close>. \<open>SocketErrorOf last_err\<close> is the
  value of \<^verbatim>\<open>socket.error(last_err)\<close>: an \<^verbatim>\<open>OSError\<close> whose only argument
  is the exception remembered by the connect loop.
\<close>

datatype exn =
    OSError "int option" string
  | SocketTimeout "int option" string
  | SSLError "int option" string
  | SocketErrorOf "exn option"
  | ValueError string
  | TypeError string
  | AttributeError string
  | IndexError string
  | UnexpectedFrame string

text \<open>\<^verbatim>\<open>isinstance(exc, (OSError, IOError, socket.error))\<close>\<close>

fun is_OSError :: "exn \<Rightarrow> bool" where
  "is_OSError (OSError _ _) = True"
| "is_OSError (SocketTimeout _ _) = True"
| "is_OSError (SSLError _ _) = True"
| "is_OSError (SocketErrorOf _) = True"
| "is_OSError _ = False"

text \<open>\<^verbatim>\<open>isinstance(exc, socket.timeout)\<close> and \<^verbatim>\<open>isinstance(exc, SSLError)\<close>\<close>

fun is_timeout :: "exn \<Rightarrow> bool" where
  "is_timeout (SocketTimeout _ _) = True"
| "is_timeout _ = False"

fun is_SSLError :: "exn \<Rightarrow> bool" where
  "is_SSLError (SSLError _ _) = True"
| "is_SSLError _ = False"

text \<open>The attribute \<^verbatim>\<open>exc.errno\<close> of an \<^verbatim>\<open>OSError\<close>.\<close>

fun errno_of :: "exn \<Rightarrow> int option" where
  "errno_of (OSError c _) = c"
| "errno_of (SocketTimeout c _) = c"
| "errno_of (SSLError c _) = c"
| "errno_of _ = None"

text \<open>\<^verbatim>\<open>str(exc)\<close>\<close>

fun str_of :: "exn \<Rightarrow> string" where
  "str_of (OSError _ m) = m"
| "str_of (SocketTimeout _ m) = m"
| "str_of (SSLError _ m) = m"
| "str_of (SocketErrorOf None) = ''None''"
| "str_of (SocketErrorOf (Some e)) = str_of e"
| "str_of (ValueError m) = m"
| "str_of (TypeError m) = m"
| "str_of (AttributeError m) = m"
| "str_of (IndexError m) = m"
| "str_of (UnexpectedFrame m) = m"

text \<open>The codes of the \<^verbatim>\<open>errno\<close> module (their values on Linux).\<close>

definition ENOENT :: int where
  "ENOENT = 2"

definition EINTR :: int where
  "EINTR = 4"

definition EAGAIN :: int where
  "EAGAIN = 11"

definition EPIPE :: int where
  "EPIPE = 32"

definition EAFNOSUPPORT :: int where
  "EAFNOSUPPORT = 97"

definition ECONNREFUSED :: int where
  "ECONNREFUSED = 111"

text \<open>\<^verbatim>\<open>_UNAVAIL = errno.EAGAIN, errno.EINTR, errno.ENOENT\<close>\<close>

definition UNAVAIL :: "int list" where
  "UNAVAIL = [EAGAIN, EINTR, ENOENT]"

text \<open>
  \<^verbatim>\<open>code in codes\<close> for a code that may be \<^verbatim>\<open>None\<close>: \<^verbatim>\<open>None\<close> is in no
  tuple of integers.
\<close>

fun errno_in :: "int option \<Rightarrow> int list \<Rightarrow> bool" where
  "errno_in None codes = False"
| "errno_in (Some c) codes = (c \<in> set codes)"

text \<open>
  Modelled from the spec: \<^verbatim>\<open>get_errno\<close> of \<^verbatim>\<open>amqpy.utils\<close> is not among the
  sources. The spec classifies a failure by "the error's code", so \<open>get_errno\<close> is the
  \<^verbatim>\<open>errno\<close> attribute of the exception.
\<close>

definition get_errno :: "exn \<Rightarrow> int option" where
  "get_errno exc = errno_of exc"

subsection \<open>Sockets\<close>

text \<open>
  What one receive call meets: \<open>Recv bs\<close>, the bytes the peer has made available
  (\<open>Recv []\<close> is the end of the stream: the peer closed), or an exception. What one
  write call meets: the number of bytes the layer below is ready to accept, or an
  exception.
\<close>

datatype recv_event = Recv "byte list" | RecvRaises exn

datatype send_event = Accepts nat | SendRaises exn

text \<open>
  A socket object. \<open>tls\<close> says that it was wrapped by \<^verbatim>\<open>ssl.wrap_socket\<close>,
  \<open>closed\<close> that \<^verbatim>\<open>close()\<close> was called on it, \<open>wire\<close> holds the bytes that
  were handed to the peer so far. The other fields are the scripts of the calls to come:
  \<open>inbound\<close> for receive calls, \<open>outbound\<close> for write calls, \<open>ctl\<close> for the calls
  that set a timeout or an option (\<open>None\<close>: the call succeeds; an exhausted script
  succeeds too), and \<open>handshake\<close> for the TLS handshake of \<^verbatim>\<open>ssl.wrap_socket\<close>.
\<close>

record socket =
  tls :: bool
  closed :: bool
  wire :: "byte list"
  inbound :: "recv_event list"
  outbound :: "send_event list"
  ctl :: "exn option list"
  handshake :: "exn option"

text \<open>
  \<^verbatim>\<open>sock.recv_into(buffer, nbytes)\<close> on a buffer of \<open>buflen\<close> bytes. A plain socket
  refuses a request larger than the buffer with a \<^verbatim>\<open>ValueError\<close>, before any
  input or output; a TLS socket clamps the request to the buffer, and reads nothing into
  an empty one. Neither ever stores more than \<open>buflen\<close> bytes. When the event holds
  more bytes than were asked for, the rest stays at the head of the script for the next
  call. The result is the bytes stored at the start of the buffer; their number is what
  Python returns.
\<close>

definition recv_into :: "socket \<Rightarrow> nat \<Rightarrow> nat \<Rightarrow> ((exn + byte list) \<times> socket) option" where
  "recv_into s buflen nbytes =
     (if \<not> tls s \<and> buflen < nbytes
      then Some (Inl (ValueError ''buffer too small for requested bytes''), s)
      else
        (case (if nbytes = 0 then buflen else min nbytes buflen) of
           0 \<Rightarrow> Some (Inr [], s)
         | Suc m \<Rightarrow>
             (case inbound s of
                [] \<Rightarrow> None
              | RecvRaises exc # rest \<Rightarrow> Some (Inl exc, s\<lparr>inbound := rest\<rparr>)
              | Recv bs # rest \<Rightarrow>
                  Some (Inr (take (Suc m) bs),
                        s\<lparr>inbound := (if length bs \<le> Suc m then rest
                                       else Recv (drop (Suc m) bs) # rest)\<rparr>))))"

subsection \<open>The transport object\<close>

datatype variant = TCPTransport | SSLTransport

text \<open>
  The fields of \<^verbatim>\<open>AbstractTransport\<close>: the scratch buffer \<^verbatim>\<open>_rbuf\<close>, the lock
  \<^verbatim>\<open>_frame_lock\<close> (\<open>True\<close> while it is held), the socket \<^verbatim>\<open>sock\<close>
  (\<open>None\<close> as in Python), the flag \<^verbatim>\<open>connected\<close>, and \<^verbatim>\<open>ssl_opts\<close> of
  \<^verbatim>\<open>SSLTransport\<close>. \<open>variant\<close> is the class of the object. \<open>dropped\<close> is a
  ghost field: the socket objects the transport created and no longer refers to, in the
  state it left them.
\<close>

record transport =
  variant :: variant
  rbuf :: "byte list"
  frame_lock :: bool
  sock :: "socket option"
  connected :: bool
  ssl_opts :: "(string \<times> string) list"
  dropped :: "socket list"

type_synonym 'a outcome = "((exn + 'a) \<times> transport) option"

subsection \<open>The exact read\<close>

text \<open>
  The loop of \<^verbatim>\<open>AbstractTransport._read\<close>. \<open>off\<close> is where the view
  \<^verbatim>\<open>mview\<close> starts in \<^verbatim>\<open>_rbuf\<close> (\<^verbatim>\<open>mview = mview[bytes_read:]\<close> moves it),
  so the view is \<open>length (rbuf t) - off\<close> bytes long. The handler
  \<^verbatim>\<open>except socket.error\<close> takes an \<^verbatim>\<open>OSError\<close> only; with no socket
  (\<^verbatim>\<open>self.sock is None\<close>) the attribute lookup raises \<^verbatim>\<open>AttributeError\<close>.
\<close>

function read_loop :: "bool \<Rightarrow> int list \<Rightarrow> nat \<Rightarrow> nat \<Rightarrow> transport \<Rightarrow> unit outcome" where
  "read_loop initial errnos off to_read t =
     (if to_read = 0 then Some (Inr (), t)
      else
        (case sock t of
           None \<Rightarrow> Some (Inl (AttributeError ''recv_into''), t)
         | Some s \<Rightarrow>
             (case recv_into s (length (rbuf t) - off) to_read of
                None \<Rightarrow> None
              | Some (Inl exc, s') \<Rightarrow>
                  if is_OSError exc \<and> \<not> initial \<and> errno_in (errno_of exc) errnos
                  then read_loop initial errnos off to_read (t\<lparr>sock := Some s'\<rparr>)
                  else Some (Inl exc, t\<lparr>sock := Some s'\<rparr>)
              | Some (Inr bs, s') \<Rightarrow>
                  if bs = []
                  then Some (Inl (OSError None ''socket closed''), t\<lparr>sock := Some s'\<rparr>)
                  else read_loop initial errnos (off + length bs) (to_read - length bs)
                         (t\<lparr>sock := Some s',
                            rbuf := take off (rbuf t) @ bs @ drop (off + length bs) (rbuf t)\<rparr>))))"
  by pat_completeness auto

text \<open>
  The loop ends: each pass either uses up an event of the script or moves the view
  forward in the buffer. \<open>budget\<close> counts what is left of both.
\<close>

definition budget :: "transport \<Rightarrow> nat \<Rightarrow> nat" where
  "budget t off =
     (case sock t of None \<Rightarrow> 0 | Some s \<Rightarrow> length (inbound s)) + (length (rbuf t) - off)"

text \<open>
  The bytes a script still holds for the reader, in order, and the bytes pending on the
  socket of a transport.
\<close>

fun stream :: "recv_event list \<Rightarrow> byte list" where
  "stream [] = []"
| "stream (Recv bs # evs) = bs @ stream evs"
| "stream (RecvRaises exc # evs) = stream evs"

definition pending :: "transport \<Rightarrow> byte list" where
  "pending t = (case sock t of None \<Rightarrow> [] | Some s \<Rightarrow> stream (inbound s))"

lemma recv_into_error_shrinks:
  "recv_into s buflen nbytes = Some (Inl exc, s') \<Longrightarrow> is_OSError exc \<Longrightarrow>
   length (inbound s') < length (inbound s)"
  by (auto simp: recv_into_def split: if_splits nat.splits list.splits recv_event.splits)

lemma recv_into_data_bounds:
  "recv_into s buflen nbytes = Some (Inr bs, s') \<Longrightarrow>
   length (inbound s') \<le> length (inbound s) \<and> length bs \<le> buflen \<and>
   (nbytes \<noteq> 0 \<longrightarrow> length bs \<le> nbytes)"
  by (auto simp: recv_into_def split: if_splits nat.splits list.splits recv_event.splits)

lemma recv_into_data_stream:
  "recv_into s buflen nbytes = Some (Inr bs, s') \<Longrightarrow>
   stream (inbound s) = bs @ stream (inbound s')"
  by (auto simp: recv_into_def split: if_splits nat.splits list.splits recv_event.splits)

lemma recv_into_error_stream:
  "recv_into s buflen nbytes = Some (Inl exc, s') \<Longrightarrow>
   stream (inbound s') = stream (inbound s)"
  by (auto simp: recv_into_def split: if_splits nat.splits list.splits recv_event.splits)

lemma budget_retry:
  "recv_into s (length (rbuf t) - off) to_read = Some (Inl exc, s') \<Longrightarrow> is_OSError exc \<Longrightarrow>
   sock t = Some s \<Longrightarrow> budget (t\<lparr>sock := Some s'\<rparr>) off < budget t off"
  by (auto simp: budget_def dest: recv_into_error_shrinks)

lemma budget_advance:
  "recv_into s (length (rbuf t) - off) to_read = Some (Inr bs, s') \<Longrightarrow> bs \<noteq> [] \<Longrightarrow>
   sock t = Some s \<Longrightarrow>
   budget (t\<lparr>sock := Some s',
              rbuf := take off (rbuf t) @ bs @ drop (off + length bs) (rbuf t)\<rparr>) (off + length bs)
     < budget t off"
  by (cases bs) (auto simp: budget_def dest!: recv_into_data_bounds)

termination read_loop
  by (relation "measure (\<lambda>(initial, errnos, off, to_read, t). budget t off)")
     (auto intro: budget_retry budget_advance)

declare read_loop.simps [simp del]

text \<open>
  \<^verbatim>\<open>AbstractTransport._read(n, initial, _errnos)\<close>: the loop from the start of the
  buffer, then \<^verbatim>\<open>memoryview(self._rbuf)[:n]\<close>. The callers pass 7, a payload size
  and 1, so \<open>n\<close> is a natural number.
\<close>

definition AbstractTransport_read :: "nat \<Rightarrow> bool \<Rightarrow> int list \<Rightarrow> transport \<Rightarrow> byte list outcome" where
  "AbstractTransport_read n initial errnos t =
     (case read_loop initial errnos 0 n t of
        None \<Rightarrow> None
      | Some (Inl exc, t') \<Rightarrow> Some (Inl exc, t')
      | Some (Inr u, t') \<Rightarrow> Some (Inr (take n (rbuf t')), t'))"

text \<open>
  \<^verbatim>\<open>read(n, initial=False)\<close>, as \<^verbatim>\<open>SSLTransport\<close> and
  \<^verbatim>\<open>TCPTransport\<close> implement it.
\<close>

definition read :: "nat \<Rightarrow> bool \<Rightarrow> transport \<Rightarrow> byte list outcome" where
  "read n initial t =
     (case variant t of
        SSLTransport \<Rightarrow> AbstractTransport_read n initial [ENOENT, EAGAIN, EINTR] t
      | TCPTransport \<Rightarrow> AbstractTransport_read n initial [EAGAIN, EINTR] t)"

text \<open>
  A script on which an exact read of \<open>n\<close> bytes comes back with its bytes: before
  the \<open>n\<close> bytes are there, every event brings at least one byte or raises an
  exception that the loop swallows.
\<close>

fun delivers :: "bool \<Rightarrow> int list \<Rightarrow> nat \<Rightarrow> recv_event list \<Rightarrow> bool" where
  "delivers initial errnos n [] = (n = 0)"
| "delivers initial errnos n (Recv bs # evs) =
     (n = 0 \<or> (bs \<noteq> [] \<and> delivers initial errnos (n - length bs) evs))"
| "delivers initial errnos n (RecvRaises exc # evs) =
     (n = 0 \<or> (is_OSError exc \<and> \<not> initial \<and> errno_in (errno_of exc) errnos
               \<and> delivers initial errnos n evs))"

subsection \<open>Writing\<close>

text \<open>
  One call of the \<^verbatim>\<open>write\<close> method of a TLS socket: the layer below accepts some
  of the bytes (never more than it was given) and the call returns their number.
\<close>

definition sock_write :: "socket \<Rightarrow> byte list \<Rightarrow> ((exn + nat) \<times> socket) option" where
  "sock_write s bs =
     (case outbound s of
        [] \<Rightarrow> None
      | SendRaises exc # rest \<Rightarrow> Some (Inl exc, s\<lparr>outbound := rest\<rparr>)
      | Accepts k # rest \<Rightarrow>
          Some (Inr (min k (length bs)),
                s\<lparr>outbound := rest, wire := wire s @ take (min k (length bs)) bs\<rparr>))"

text \<open>
  The loop of \<^verbatim>\<open>SSLTransport.write\<close>, on the socket whose bound method
  \<^verbatim>\<open>write\<close> was looked up before the loop: \<^verbatim>\<open>while s: n = write(s); ...;
  s = s[n:]\<close>.
\<close>

function write_loop :: "byte list \<Rightarrow> socket \<Rightarrow> ((exn + unit) \<times> socket) option" where
  "write_loop bs s =
     (if bs = [] then Some (Inr (), s)
      else
        (case sock_write s bs of
           None \<Rightarrow> None
         | Some (Inl exc, s') \<Rightarrow> Some (Inl exc, s')
         | Some (Inr n, s') \<Rightarrow>
             if n = 0 then Some (Inl (OSError None ''Socket closed''), s')
             else write_loop (drop n bs) s'))"
  by pat_completeness auto
termination
  by (relation "measure (\<lambda>(bs, s). length bs)") auto

declare write_loop.simps [simp del]

text \<open>
  A script on which a write of \<open>n\<close> bytes is accepted whole: until the \<open>n\<close>
  bytes are through, every write call accepts at least one byte.
\<close>

fun accepts_all :: "nat \<Rightarrow> send_event list \<Rightarrow> bool" where
  "accepts_all n [] = (n = 0)"
| "accepts_all n (Accepts k # evs) = (n = 0 \<or> (0 < k \<and> accepts_all (n - k) evs))"
| "accepts_all n (SendRaises exc # evs) = (n = 0)"

text \<open>
  \<^verbatim>\<open>SSLTransport.write(s)\<close>. The lookup \<^verbatim>\<open>self.sock.write\<close> raises
  \<^verbatim>\<open>AttributeError\<close> when there is no socket, and on a plain socket, which has
  no such method; the method turns that into \<^verbatim>\<open>IOError('Socket closed')\<close>.
\<close>

definition SSLTransport_write :: "byte list \<Rightarrow> transport \<Rightarrow> unit outcome" where
  "SSLTransport_write bs t =
     (case sock t of
        None \<Rightarrow> Some (Inl (OSError None ''Socket closed''), t)
      | Some s \<Rightarrow>
          if \<not> tls s then Some (Inl (OSError None ''Socket closed''), t)
          else
            (case write_loop bs s of
               None \<Rightarrow> None
             | Some (r, s') \<Rightarrow> Some (r, t\<lparr>sock := Some s'\<rparr>)))"

text \<open>
  \<^verbatim>\<open>sock.sendall(data)\<close> of the library: it sends until every byte is accepted or a
  send raises.
\<close>

fun sendall_events :: "send_event list \<Rightarrow> byte list \<Rightarrow> byte list
    \<Rightarrow> ((exn + unit) \<times> send_event list \<times> byte list) option" where
  "sendall_events evs [] w = Some (Inr (), evs, w)"
| "sendall_events [] bs w = None"
| "sendall_events (SendRaises exc # evs) bs w = Some (Inl exc, evs, w)"
| "sendall_events (Accepts k # evs) bs w = sendall_events evs (drop k bs) (w @ take k bs)"

definition sendall :: "socket \<Rightarrow> byte list \<Rightarrow> ((exn + unit) \<times> socket) option" where
  "sendall s bs =
     (case sendall_events (outbound s) bs (wire s) of
        None \<Rightarrow> None
      | Some (r, evs, w) \<Rightarrow> Some (r, s\<lparr>outbound := evs, wire := w\<rparr>))"

text \<open>\<^verbatim>\<open>TCPTransport.write(s)\<close>: \<^verbatim>\<open>self.sock.sendall(s)\<close>.\<close>

definition TCPTransport_write :: "byte list \<Rightarrow> transport \<Rightarrow> unit outcome" where
  "TCPTransport_write bs t =
     (case sock t of
        None \<Rightarrow> Some (Inl (AttributeError ''sendall''), t)
      | Some s \<Rightarrow>
          (case sendall s bs of
             None \<Rightarrow> None
           | Some (r, s') \<Rightarrow> Some (r, t\<lparr>sock := Some s'\<rparr>)))"

text \<open>
  \<^verbatim>\<open>write(s)\<close>, as the class of the object implements it (\<open>write\<close> is a
  keyword of Isabelle, hence the longer name).
\<close>

definition transport_write :: "byte list \<Rightarrow> transport \<Rightarrow> unit outcome" where
  "transport_write bs t =
     (case variant t of
        SSLTransport \<Rightarrow> SSLTransport_write bs t
      | TCPTransport \<Rightarrow> TCPTransport_write bs t)"

subsection \<open>Frames\<close>

text \<open>
  \<^verbatim>\<open>Frame\<close> of \<^verbatim>\<open>amqpy.spec\<close>: the accumulator \<^verbatim>\<open>data\<close>, empty when the
  frame is created.
\<close>

record frame =
  data :: "byte list"

text \<open>
  Modelled from the spec: the class \<^verbatim>\<open>Frame\<close> is not among the sources. Its property
  \<^verbatim>\<open>payload_size\<close> is, in the spec's words, an unsigned 32-bit value "derived from
  header bytes 4-7", the "4-byte big-endian payload length" that follows the 1-byte type
  and the 2-byte channel. It is read from a frame that holds its 7 header bytes.
\<close>

definition payload_size :: "frame \<Rightarrow> nat" where
  "payload_size f =
     (case drop 3 (data f) of
        b0 # b1 # b2 # b3 # _ \<Rightarrow> ((unat b0 * 256 + unat b1) * 256 + unat b2) * 256 + unat b3
      | _ \<Rightarrow> 0)"

text \<open>
  Modelled from the spec: \<^verbatim>\<open>FrameType.END\<close> of \<^verbatim>\<open>amqpy.spec\<close> is the
  "fixed sentinel 0xCE".
\<close>

definition FrameType_END :: byte where
  "FrameType_END = 0xCE"

text \<open>Python's \<^verbatim>\<open>hex\<close> on the value of a byte (below 256).\<close>

definition hex_digit :: "nat \<Rightarrow> char" where
  "hex_digit d = ''0123456789abcdef'' ! d"

definition hex :: "nat \<Rightarrow> string" where
  "hex i =
     ''0x'' @ (if i < 16 then [hex_digit i] else [hex_digit (i div 16), hex_digit (i mod 16)])"

text \<open>\<^verbatim>\<open>sub in s\<close> on strings.\<close>

primrec str_contains :: "string \<Rightarrow> string \<Rightarrow> bool" where
  "str_contains sub [] = (sub = [])"
| "str_contains sub (c # cs) = (take (length sub) (c # cs) = sub \<or> str_contains sub cs)"

subsection \<open>The frame lock\<close>

text \<open>
  Modelled from the spec: the decorator \<^verbatim>\<open>synchronized\<close> of
  \<^verbatim>\<open>amqpy.concurrency\<close> is not among the sources. The spec has the decorated method
  "executed under" a mutex: the lock named by the decorator is taken before the body and
  given back after it, whatever the outcome. \<open>acquire\<close> is the entry: it yields the
  state in which the body runs and which every other caller sees meanwhile, and nothing
  while the lock is held, when the caller waits. The transport has one lock attribute,
  \<^verbatim>\<open>_frame_lock\<close> (\<^verbatim>\<open>self._frame_lock = Lock()\<close>).
\<close>

definition acquire :: "string \<Rightarrow> transport \<Rightarrow> (exn + transport) option" where
  "acquire lock_name t =
     (if lock_name = ''_frame_lock''
      then (if frame_lock t then None else Some (Inr (t\<lparr>frame_lock := True\<rparr>)))
      else Some (Inl (AttributeError lock_name)))"

definition release :: "string \<Rightarrow> transport \<Rightarrow> transport" where
  "release lock_name t = (if lock_name = ''_frame_lock'' then t\<lparr>frame_lock := False\<rparr> else t)"

definition synchronized :: "string \<Rightarrow> (transport \<Rightarrow> 'a outcome) \<Rightarrow> transport \<Rightarrow> 'a outcome" where
  "synchronized lock_name f t =
     (case acquire lock_name t of
        None \<Rightarrow> None
      | Some (Inl exc) \<Rightarrow> Some (Inl exc, t)
      | Some (Inr t_in) \<Rightarrow>
          (case f t_in of
             None \<Rightarrow> None
           | Some (r, t') \<Rightarrow> Some (r, release lock_name t')))"

subsection \<open>Reading and writing a frame\<close>

text \<open>
  The \<^verbatim>\<open>try\<close> block of \<^verbatim>\<open>read_frame\<close>. It yields the frame and
  \<^verbatim>\<open>i_last_byte\<close>. Each view is copied into \<^verbatim>\<open>frame.data\<close> before the next
  read overwrites the scratch buffer.
\<close>

definition read_frame_try :: "transport \<Rightarrow> (frame \<times> byte) outcome" where
  "read_frame_try t =
     (case read 7 True t of
        None \<Rightarrow> None
      | Some (Inl exc, t1) \<Rightarrow> Some (Inl exc, t1)
      | Some (Inr frame_header, t1) \<Rightarrow>
          (case read (payload_size \<lparr>data = [] @ frame_header\<rparr>) False t1 of
             None \<Rightarrow> None
           | Some (Inl exc, t2) \<Rightarrow> Some (Inl exc, t2)
           | Some (Inr payload, t2) \<Rightarrow>
               (case read 1 False t2 of
                  None \<Rightarrow> None
                | Some (Inl exc, t3) \<Rightarrow> Some (Inl exc, t3)
                | Some (Inr frame_terminator, t3) \<Rightarrow>
                    (case frame_terminator of
                       [] \<Rightarrow> Some (Inl (IndexError ''index out of range''), t3)
                     | i_last_byte # _ \<Rightarrow>
                         Some (Inr (\<lparr>data = ([] @ frame_header) @ payload @ frame_terminator\<rparr>,
                                    i_last_byte), t3)))))"

text \<open>
  The handler \<^verbatim>\<open>except (OSError, IOError, socket.error) as exc\<close> of
  \<^verbatim>\<open>read_frame\<close>: the exception that leaves it and the state it leaves. Any other
  exception passes it by.
\<close>

definition read_frame_except :: "exn \<Rightarrow> transport \<Rightarrow> exn \<times> transport" where
  "read_frame_except exc t =
     (if is_OSError exc
      then
        (if is_SSLError exc \<and> str_contains ''timed out'' (str_of exc)
         then (SocketTimeout None [], t)
         else (exc, if \<not> errno_in (get_errno exc) UNAVAIL \<and> \<not> is_timeout exc
                    then t\<lparr>connected := False\<rparr> else t))
      else (exc, t))"

definition read_frame_locked :: "transport \<Rightarrow> frame outcome" where
  "read_frame_locked t =
     (case read_frame_try t of
        None \<Rightarrow> None
      | Some (Inl exc, t') \<Rightarrow>
          (case read_frame_except exc t' of (exc', t'') \<Rightarrow> Some (Inl exc', t''))
      | Some (Inr (frame, i_last_byte), t') \<Rightarrow>
          if i_last_byte = FrameType_END then Some (Inr frame, t')
          else Some (Inl (UnexpectedFrame
                 (''Received '' @ hex (unat i_last_byte)
                    @ '' while expecting 0xCE (FrameType.END)'')), t'))"

definition read_frame :: "transport \<Rightarrow> frame outcome" where
  "read_frame = synchronized ''_frame_lock'' read_frame_locked"

text \<open>
  \<^verbatim>\<open>write_frame\<close>: \<^verbatim>\<open>except socket.timeout: raise\<close> comes first, then
  \<^verbatim>\<open>except (OSError, IOError, socket.error)\<close>.
\<close>

definition write_frame_locked :: "frame \<Rightarrow> transport \<Rightarrow> unit outcome" where
  "write_frame_locked frame t =
     (case transport_write (data frame) t of
        None \<Rightarrow> None
      | Some (Inr u, t') \<Rightarrow> Some (Inr u, t')
      | Some (Inl exc, t') \<Rightarrow>
          if is_timeout exc then Some (Inl exc, t')
          else if is_OSError exc
          then Some (Inl exc, if \<not> errno_in (get_errno exc) UNAVAIL
                              then t'\<lparr>connected := False\<rparr> else t')
          else Some (Inl exc, t'))"

definition write_frame :: "frame \<Rightarrow> transport \<Rightarrow> unit outcome" where
  "write_frame frame = synchronized ''_frame_lock'' (write_frame_locked frame)"

text \<open>
  What a call gave its caller and what it did to the socket and to the scratch buffer:
  the outcome without the fields of the transport that the network cannot see.
\<close>

definition io_view :: "'a outcome \<Rightarrow> ((exn + 'a) \<times> socket option \<times> byte list) option" where
  "io_view r = map_option (\<lambda>(x, t'). (x, sock t', rbuf t')) r"

subsection \<open>Callers in several threads\<close>






subsection \<open>Construction\<close>

text \<open>
  What one pass of the connect loop meets for a candidate address: the call
  \<^verbatim>\<open>socket.socket(af, socktype, proto)\<close> raises; or it yields a socket whose
  \<^verbatim>\<open>connect(sa)\<close> raises; or it yields a socket that connects. The connect timeout
  decides how an attempt ends, and the attempt says that already.
\<close>

datatype attempt = CreateRaises exn | ConnectRaises socket exn | Connects socket

text \<open>
  An assignment to \<^verbatim>\<open>self.sock\<close>: the object the field referred to before is no
  longer referred to.
\<close>

definition set_sock :: "socket option \<Rightarrow> transport \<Rightarrow> transport" where
  "set_sock new t =
     t\<lparr>sock := new,
       dropped := (case sock t of None \<Rightarrow> dropped t | Some old \<Rightarrow> old # dropped t)\<rparr>"

text \<open>
  The handler \<^verbatim>\<open>except socket.error as exc\<close> of the connect loop begins with
  \<^verbatim>\<open>self.sock.close()\<close>, then \<^verbatim>\<open>self.sock = None\<close>. With no socket in the
  field the call raises \<^verbatim>\<open>AttributeError\<close>, which leaves the constructor.
\<close>

definition close_and_clear :: "transport \<Rightarrow> exn + transport" where
  "close_and_clear t =
     (case sock t of
        None \<Rightarrow> Inl (AttributeError ''close'')
      | Some s \<Rightarrow> Inr (set_sock None (t\<lparr>sock := Some (s\<lparr>closed := True\<rparr>)\<rparr>)))"

text \<open>
  The loop \<^verbatim>\<open>for res in socket.getaddrinfo(...)\<close>. It yields \<^verbatim>\<open>last_err\<close>, or
  the exception that leaves it.
\<close>

fun connect_loop :: "attempt list \<Rightarrow> exn option \<Rightarrow> transport \<Rightarrow> (exn + exn option) \<times> transport" where
  "connect_loop [] last_err t = (Inr last_err, t)"
| "connect_loop (CreateRaises exc # res) last_err t =
     (if is_OSError exc
      then (case close_and_clear t of
              Inl exc' \<Rightarrow> (Inl exc', t)
            | Inr t' \<Rightarrow> connect_loop res (Some exc) t')
      else (Inl exc, t))"
| "connect_loop (ConnectRaises s exc # res) last_err t =
     (if is_OSError exc
      then (case close_and_clear (set_sock (Some s) t) of
              Inl exc' \<Rightarrow> (Inl exc', set_sock (Some s) t)
            | Inr t' \<Rightarrow> connect_loop res (Some exc) t')
      else (Inl exc, set_sock (Some s) t))"
| "connect_loop (Connects s # res) last_err t = (Inr last_err, set_sock (Some s) t)"

text \<open>
  One call that sets the timeout or an option of the socket in \<^verbatim>\<open>self.sock\<close>.
\<close>

definition sock_ctl :: "transport \<Rightarrow> unit outcome" where
  "sock_ctl t =
     (case sock t of
        None \<Rightarrow> Some (Inl (AttributeError ''settimeout''), t)
      | Some s \<Rightarrow>
          (case ctl s of
             [] \<Rightarrow> Some (Inr (), t)
           | None # rest \<Rightarrow> Some (Inr (), t\<lparr>sock := Some (s\<lparr>ctl := rest\<rparr>)\<rparr>)
           | Some exc # rest \<Rightarrow> Some (Inl exc, t\<lparr>sock := Some (s\<lparr>ctl := rest\<rparr>)\<rparr>)))"

text \<open>
  \<^verbatim>\<open>_setup_transport\<close>: nothing for \<^verbatim>\<open>TCPTransport\<close>;
  \<^verbatim>\<open>self.sock = ssl.wrap_socket(self.sock, **self.ssl_opts)\<close> for
  \<^verbatim>\<open>SSLTransport\<close>, which performs the handshake. When the handshake fails, the
  library has already detached the plain socket and closes the descriptor before it
  raises: the assignment does not happen, and the object still in \<^verbatim>\<open>self.sock\<close> is
  a closed socket.
\<close>

definition setup_transport :: "transport \<Rightarrow> unit outcome" where
  "setup_transport t =
     (case variant t of
        TCPTransport \<Rightarrow> Some (Inr (), t)
      | SSLTransport \<Rightarrow>
          (case sock t of
             None \<Rightarrow> Some (Inl (AttributeError ''wrap_socket''), t)
           | Some s \<Rightarrow>
               (case handshake s of
                  Some exc \<Rightarrow> Some (Inl exc, t\<lparr>sock := Some (s\<lparr>closed := True\<rparr>)\<rparr>)
                | None \<Rightarrow> Some (Inr (), t\<lparr>sock := Some (s\<lparr>tls := True\<rparr>)\<rparr>))))"

text \<open>\<^verbatim>\<open>AMQP_PROTOCOL_HEADER = b'AMQP\x00\x00\x09\x01'\<close>\<close>

definition AMQP_PROTOCOL_HEADER :: "byte list" where
  "AMQP_PROTOCOL_HEADER = [65, 77, 81, 80, 0, 0, 9, 1]"

text \<open>
  Sequencing: the next statement runs in the state the previous one left, unless the
  previous one raised or never came back.
\<close>

definition and_then :: "unit outcome \<Rightarrow> (transport \<Rightarrow> unit outcome) \<Rightarrow> unit outcome" where
  "and_then r f =
     (case r of
        None \<Rightarrow> None
      | Some (Inl exc, t) \<Rightarrow> Some (Inl exc, t)
      | Some (Inr u, t) \<Rightarrow> f t)"

text \<open>
  The second \<^verbatim>\<open>try\<close> block of \<^verbatim>\<open>__init__\<close>: first \<^verbatim>\<open>settimeout(None)\<close>
  and the two \<^verbatim>\<open>setsockopt\<close> calls, then \<^verbatim>\<open>_setup_transport()\<close> and the
  protocol header.
\<close>

definition init_options :: "transport \<Rightarrow> unit outcome" where
  "init_options t = and_then (and_then (sock_ctl t) sock_ctl) sock_ctl"

definition init_try :: "transport \<Rightarrow> unit outcome" where
  "init_try t =
     and_then (and_then (init_options t) setup_transport)
       (transport_write AMQP_PROTOCOL_HEADER)"

text \<open>
  The handler of that block, \<^verbatim>\<open>except (OSError, IOError, socket.error) as exc\<close>:
  \<^verbatim>\<open>if get_errno(exc) not in _UNAVAIL: self.connected = False\<close>, then
  \<^verbatim>\<open>raise\<close>. Here it is the state in which the exception leaves; an exception of
  another class passes the handler by.
\<close>

definition init_except :: "exn \<Rightarrow> transport \<Rightarrow> transport" where
  "init_except exc t =
     (if is_OSError exc \<and> \<not> errno_in (get_errno exc) UNAVAIL
      then t\<lparr>connected := False\<rparr> else t)"

text \<open>
  The object when the connect loop starts: \<^verbatim>\<open>_rbuf = bytearray(buf_size)\<close>, a fresh
  lock, \<^verbatim>\<open>sock = None\<close>, and \<^verbatim>\<open>connected\<close> still the class attribute,
  \<^verbatim>\<open>False\<close>.
\<close>

definition blank_transport :: "variant \<Rightarrow> (string \<times> string) list \<Rightarrow> nat \<Rightarrow> transport" where
  "blank_transport cls opts buf_size =
     \<lparr>variant = cls, rbuf = replicate buf_size 0, frame_lock = False, sock = None,
      connected = False, ssl_opts = opts, dropped = []\<rparr>"

text \<open>
  \<^verbatim>\<open>AbstractTransport.__init__\<close>. \<open>addrinfo\<close> is what
  \<^verbatim>\<open>socket.getaddrinfo(host, port, ...)\<close> does: it raises, or yields the candidates.
  The outcome carries the object as the constructor left it, also when the constructor
  raised.
\<close>

definition AbstractTransport_init :: "variant \<Rightarrow> (string \<times> string) list \<Rightarrow> exn + attempt list \<Rightarrow> nat \<Rightarrow> unit outcome" where
  "AbstractTransport_init cls opts addrinfo buf_size =
     (case addrinfo of
        Inl exc \<Rightarrow> Some (Inl exc, blank_transport cls opts buf_size)
      | Inr res \<Rightarrow>
          (case connect_loop res None (blank_transport cls opts buf_size) of
             (Inl exc, t1) \<Rightarrow> Some (Inl exc, t1)
           | (Inr last_err, t1) \<Rightarrow>
               (case sock t1 of
                  None \<Rightarrow> Some (Inl (SocketErrorOf last_err), t1)
                | Some s \<Rightarrow>
                    (case init_try t1 of
                       None \<Rightarrow> None
                     | Some (Inl exc, t2) \<Rightarrow> Some (Inl exc, init_except exc t2)
                     | Some (Inr u, t2) \<Rightarrow> Some (Inr (), t2\<lparr>connected := True\<rparr>)))))"

text \<open>
  The constructors of the two classes. \<open>getaddrinfo\<close> is the resolver of the
  environment.
\<close>

definition SSLTransport_init :: "(string \<Rightarrow> nat \<Rightarrow> exn + attempt list) \<Rightarrow> string \<Rightarrow> nat \<Rightarrow> nat \<Rightarrow> (string \<times> string) list \<Rightarrow> unit outcome" where
  "SSLTransport_init getaddrinfo host port frame_max opts =
     AbstractTransport_init SSLTransport opts (getaddrinfo host port) frame_max"

definition TCPTransport_init :: "(string \<Rightarrow> nat \<Rightarrow> exn + attempt list) \<Rightarrow> string \<Rightarrow> nat \<Rightarrow> nat \<Rightarrow> unit outcome" where
  "TCPTransport_init getaddrinfo host port frame_max =
     AbstractTransport_init TCPTransport [] (getaddrinfo host port) frame_max"

text \<open>
  The values the argument \<^verbatim>\<open>ssl_opts\<close> of \<^verbatim>\<open>create_transport\<close> may take
  (\<open>opts\<close> below, \<open>ssl_opts\<close> being the field): any Python object; a dictionary
  of keyword arguments for \<^verbatim>\<open>ssl.wrap_socket\<close> is one of them.
\<close>

datatype pyval =
    PyNone
  | PyBool bool
  | PyInt int
  | PyStr string
  | PyList "pyval list"
  | PyDict "(string \<times> string) list"

text \<open>\<^verbatim>\<open>isinstance(ssl_opts, dict)\<close>\<close>

fun is_dict :: "pyval \<Rightarrow> bool" where
  "is_dict (PyDict _) = True"
| "is_dict _ = False"

text \<open>\<^verbatim>\<open>bool(v)\<close>, the truth value Python gives an object.\<close>

fun truthy :: "pyval \<Rightarrow> bool" where
  "truthy PyNone = False"
| "truthy (PyBool b) = b"
| "truthy (PyInt i) = (i \<noteq> 0)"
| "truthy (PyStr s) = (s \<noteq> [])"
| "truthy (PyList vs) = (vs \<noteq> [])"
| "truthy (PyDict kvs) = (kvs \<noteq> [])"

definition create_transport :: "(string \<Rightarrow> nat \<Rightarrow> exn + attempt list) \<Rightarrow> string \<Rightarrow> nat \<Rightarrow> nat \<Rightarrow> pyval \<Rightarrow> unit outcome" where
  "create_transport getaddrinfo host port frame_max opts =
     (case opts of
        PyDict kwargs \<Rightarrow> SSLTransport_init getaddrinfo host port frame_max kwargs
      | _ \<Rightarrow> TCPTransport_init getaddrinfo host port frame_max)"

subsection \<open>Notions for the connect loop\<close>

text \<open>
  An attempt that the handler of the connect loop takes care of: the socket was created
  and \<^verbatim>\<open>connect\<close> raised a \<^verbatim>\<open>socket.error\<close>. Then, for a list of attempts: the
  sockets of the failed connects, each after its \<^verbatim>\<open>close()\<close>, and the error of the
  last failed connect (\<open>last_err\<close> when there is none).
\<close>

fun refused :: "attempt \<Rightarrow> bool" where
  "refused (ConnectRaises s exc) = is_OSError exc"
| "refused _ = False"

fun closed_sockets :: "attempt list \<Rightarrow> socket list" where
  "closed_sockets [] = []"
| "closed_sockets (ConnectRaises s exc # res) = s\<lparr>closed := True\<rparr> # closed_sockets res"
| "closed_sockets (_ # res) = closed_sockets res"

fun last_error :: "attempt list \<Rightarrow> exn option \<Rightarrow> exn option" where
  "last_error [] last_err = last_err"
| "last_error (ConnectRaises s exc # res) last_err = last_error res (Some exc)"
| "last_error (_ # res) last_err = last_error res last_err"

subsection \<open>Notions for the steps after the connect\<close>

text \<open>
  \<open>steady t t'\<close>: from \<open>t\<close> to \<open>t'\<close> the transport kept its class, its flag
  \<^verbatim>\<open>connected\<close> and the sockets it dropped, and \<^verbatim>\<open>sock\<close> holds a socket if
  and only if it did. \<open>same_closed t t'\<close>: that socket is as open or closed as it was.
  \<open>same_tls t t'\<close>: it is as plain or as wrapped as it was. An attempt is plain when
  its socket is. \<open>fails_in_setup t\<close>: the second \<^verbatim>\<open>try\<close> block, started in
  \<open>t\<close>, gets through the timeout and the options and fails in
  \<^verbatim>\<open>_setup_transport\<close>.
\<close>

definition steady :: "transport \<Rightarrow> transport \<Rightarrow> bool" where
  "steady t t' =
     (variant t' = variant t \<and> connected t' = connected t \<and> dropped t' = dropped t \<and>
      (sock t' = None) = (sock t = None))"

definition same_closed :: "transport \<Rightarrow> transport \<Rightarrow> bool" where
  "same_closed t t' = (map_option closed (sock t') = map_option closed (sock t))"


definition same_tls :: "transport \<Rightarrow> transport \<Rightarrow> bool" where
  "same_tls t t' = (map_option tls (sock t') = map_option tls (sock t))"

fun plain_attempt :: "attempt \<Rightarrow> bool" where
  "plain_attempt (CreateRaises exc) = True"
| "plain_attempt (ConnectRaises s exc) = (\<not> tls s)"
| "plain_attempt (Connects s) = (\<not> tls s)"

subsection \<open>Example states\<close>

definition plain_socket :: "recv_event list \<Rightarrow> send_event list \<Rightarrow> socket" where
  "plain_socket evs outs =
     \<lparr>tls = False, closed = False, wire = [], inbound = evs, outbound = outs, ctl = [],
      handshake = None\<rparr>"

definition reader_demo :: transport where
  "reader_demo =
     \<lparr>variant = TCPTransport, rbuf = [0, 0, 0, 0, 0, 0, 0, 0], frame_lock = False,
      sock = Some (plain_socket
        [Recv [1, 2], RecvRaises (OSError (Some EINTR) ''Interrupted system call''),
         Recv [3, 4, 5, 6]] []),
      connected = True, ssl_opts = [], dropped = []\<rparr>"

definition reader_demo_after :: transport where
  "reader_demo_after =
     \<lparr>variant = TCPTransport, rbuf = [1, 2, 3, 4, 5, 0, 0, 0], frame_lock = False,
      sock = Some (plain_socket [Recv [6]] []),
      connected = True, ssl_opts = [], dropped = []\<rparr>"

definition eagain_demo :: transport where
  "eagain_demo =
     \<lparr>variant = TCPTransport, rbuf = [0, 0, 0, 0, 0, 0, 0, 0], frame_lock = False,
      sock = Some (plain_socket
        [RecvRaises (OSError (Some EAGAIN) ''Resource temporarily unavailable''),
         Recv [8, 0, 0, 0, 0, 0, 0, 206]] []),
      connected = True, ssl_opts = [], dropped = []\<rparr>"

definition eagain_demo_rest :: transport where
  "eagain_demo_rest =
     \<lparr>variant = TCPTransport, rbuf = [0, 0, 0, 0, 0, 0, 0, 0], frame_lock = False,
      sock = Some (plain_socket [Recv [8, 0, 0, 0, 0, 0, 0, 206]] []),
      connected = True, ssl_opts = [], dropped = []\<rparr>"

definition frame_demo :: transport where
  "frame_demo =
     \<lparr>variant = TCPTransport, rbuf = [0, 0, 0, 0, 0, 0, 0, 0], frame_lock = False,
      sock = Some (plain_socket [Recv [1, 0, 1, 0, 0], Recv [0, 2, 170, 187, 206, 8]] []),
      connected = True, ssl_opts = [], dropped = []\<rparr>"

definition frame_demo_after :: transport where
  "frame_demo_after =
     \<lparr>variant = TCPTransport, rbuf = [206, 187, 1, 0, 0, 0, 2, 0], frame_lock = False,
      sock = Some (plain_socket [Recv [8]] []),
      connected = True, ssl_opts = [], dropped = []\<rparr>"

definition bad_frame_demo :: transport where
  "bad_frame_demo =
     \<lparr>variant = TCPTransport, rbuf = [0, 0, 0, 0, 0, 0, 0, 0], frame_lock = False,
      sock = Some (plain_socket [Recv [8, 0, 0, 0, 0, 0, 0, 171]] []),
      connected = True, ssl_opts = [], dropped = []\<rparr>"

definition bad_frame_demo_after :: transport where
  "bad_frame_demo_after =
     \<lparr>variant = TCPTransport, rbuf = [171, 0, 0, 0, 0, 0, 0, 0], frame_lock = False,
      sock = Some (plain_socket [] []),
      connected = True, ssl_opts = [], dropped = []\<rparr>"

definition tls_socket :: "recv_event list \<Rightarrow> send_event list \<Rightarrow> socket" where
  "tls_socket evs outs =
     \<lparr>tls = True, closed = False, wire = [], inbound = evs, outbound = outs, ctl = [],
      handshake = None\<rparr>"

definition tls_demo :: "recv_event list \<Rightarrow> send_event list \<Rightarrow> transport" where
  "tls_demo evs outs =
     \<lparr>variant = SSLTransport, rbuf = [0, 0, 0, 0, 0, 0, 0, 0], frame_lock = False,
      sock = Some (tls_socket evs outs), connected = True, ssl_opts = [], dropped = []\<rparr>"

definition tcp_demo :: "recv_event list \<Rightarrow> send_event list \<Rightarrow> transport" where
  "tcp_demo evs outs =
     \<lparr>variant = TCPTransport, rbuf = [0, 0, 0, 0, 0, 0, 0, 0], frame_lock = False,
      sock = Some (plain_socket evs outs), connected = True, ssl_opts = [], dropped = []\<rparr>"

definition heartbeat :: frame where
  "heartbeat = \<lparr>data = [8, 0, 0, 0, 0, 0, 0, 206]\<rparr>"

definition refusing_socket :: socket where
  "refusing_socket = plain_socket [] []"

definition accepting_socket :: socket where
  "accepting_socket = plain_socket [] [Accepts 8]"

definition refusal :: exn where
  "refusal = OSError (Some ECONNREFUSED) ''Connection refused''"


definition demo_resolver :: "string \<Rightarrow> nat \<Rightarrow> exn + attempt list" where
  "demo_resolver host port = Inr [Connects accepting_socket]"


definition unsupported :: exn where
  "unsupported = OSError (Some EAFNOSUPPORT) ''Address family not supported by protocol''"

section \<open>Properties\<close>

subsection \<open>The exact read\<close>

lemma read_loop_fills:
  "read_loop initial errnos off to_read t = Some (Inr u, t') \<Longrightarrow> off \<le> length (rbuf t) \<Longrightarrow>
   \<exists>bs. length bs = to_read \<and> off + to_read \<le> length (rbuf t) \<and>
        rbuf t' = take off (rbuf t) @ bs @ drop (off + to_read) (rbuf t) \<and>
        pending t = bs @ pending t'"
proof (induction initial errnos off to_read t rule: read_loop.induct)
  case (1 initial errnos off to_read t)
  show ?case
  proof (cases "to_read = 0")
    case True
    with "1.prems" show ?thesis
      by (simp add: read_loop.simps)
  next
    case False
    with "1.prems" obtain s where s: "sock t = Some s"
      by (auto simp: read_loop.simps [of initial errnos off to_read t] split: option.splits)
    from False "1.prems" s obtain r s' where
      r: "recv_into s (length (rbuf t) - off) to_read = Some (r, s')"
      by (auto simp: read_loop.simps [of initial errnos off to_read t] split: option.splits)
    show ?thesis
    proof (cases r)
      case (Inl exc)
      with False s r "1.prems" have
        retry: "is_OSError exc \<and> \<not> initial \<and> errno_in (errno_of exc) errnos" and
        again: "read_loop initial errnos off to_read (t\<lparr>sock := Some s'\<rparr>) = Some (Inr u, t')"
        by (auto simp: read_loop.simps [of initial errnos off to_read t] split: if_splits)
      from "1.IH"(1) [OF False s r [symmetric, THEN sym] refl Inl retry again] "1.prems"(2)
      obtain bs where bs: "length bs = to_read" "off + to_read \<le> length (rbuf t)"
        "rbuf t' = take off (rbuf t) @ bs @ drop (off + to_read) (rbuf t)"
        "pending (t\<lparr>sock := Some s'\<rparr>) = bs @ pending t'"
        by auto
      from r Inl have "stream (inbound s') = stream (inbound s)"
        by (auto dest: recv_into_error_stream)
      with s have "pending (t\<lparr>sock := Some s'\<rparr>) = pending t"
        by (simp add: pending_def)
      with bs show ?thesis by auto
    next
      case (Inr got)
      with False s r "1.prems" have
        got: "got \<noteq> []" and
        again: "read_loop initial errnos (off + length got) (to_read - length got)
                  (t\<lparr>sock := Some s',
                     rbuf := take off (rbuf t) @ got @ drop (off + length got) (rbuf t)\<rparr>)
                = Some (Inr u, t')"
        by (auto simp: read_loop.simps [of initial errnos off to_read t] split: if_splits)
      let ?t1 = "t\<lparr>sock := Some s',
                   rbuf := take off (rbuf t) @ got @ drop (off + length got) (rbuf t)\<rparr>"
      from r Inr False have bounds: "length got \<le> length (rbuf t) - off" "length got \<le> to_read"
        and str: "stream (inbound s) = got @ stream (inbound s')"
        by (auto dest: recv_into_data_bounds recv_into_data_stream)
      from bounds "1.prems"(2) have len1: "off + length got \<le> length (rbuf t)" by arith
      then have len: "length (rbuf ?t1) = length (rbuf t)" by simp
      from "1.IH"(2) [OF False s r [symmetric, THEN sym] refl Inr got again] len len1
      obtain rest where rest: "length rest = to_read - length got"
        "off + length got + (to_read - length got) \<le> length (rbuf t)"
        "rbuf t' = take (off + length got) (rbuf ?t1) @ rest
                     @ drop (off + length got + (to_read - length got)) (rbuf ?t1)"
        "pending ?t1 = rest @ pending t'"
        by auto
      from bounds have k: "off + length got + (to_read - length got) = off + to_read" by arith
      from "1.prems"(2) have tk: "take (off + length got) (rbuf ?t1) = take off (rbuf t) @ got"
        by simp
      from "1.prems"(2) bounds
      have dr: "drop (off + to_read) (rbuf ?t1) = drop (off + to_read) (rbuf t)"
        by (simp add: min_absorb2 add.commute)
      from s str have p: "pending t = got @ pending ?t1"
        by (simp add: pending_def)
      have "length (got @ rest) = to_read" using rest(1) bounds by simp
      moreover have "off + to_read \<le> length (rbuf t)" using rest(2) k by simp
      moreover have "rbuf t' = take off (rbuf t) @ (got @ rest) @ drop (off + to_read) (rbuf t)"
        using rest(3) k tk dr by simp
      moreover have "pending t = (got @ rest) @ pending t'"
        using p rest(4) by simp
      ultimately show ?thesis by blast
    qed
  qed
qed

lemma delivers_zero [simp]: "delivers initial errnos 0 evs"
  by (cases evs rule: stream.cases) auto

lemma recv_into_fits:
  "0 < nbytes \<Longrightarrow> nbytes \<le> buflen \<Longrightarrow>
   recv_into s buflen nbytes =
     (case inbound s of
        [] \<Rightarrow> None
      | RecvRaises exc # rest \<Rightarrow> Some (Inl exc, s\<lparr>inbound := rest\<rparr>)
      | Recv bs # rest \<Rightarrow>
          Some (Inr (take nbytes bs),
                s\<lparr>inbound := (if length bs \<le> nbytes then rest
                               else Recv (drop nbytes bs) # rest)\<rparr>))"
  by (cases nbytes) (auto simp: recv_into_def min_absorb1 split: list.splits recv_event.splits)

lemma read_loop_returns:
  "sock t = Some s \<Longrightarrow> delivers initial errnos to_read (inbound s) \<Longrightarrow>
   off + to_read \<le> length (rbuf t) \<Longrightarrow>
   \<exists>t'. read_loop initial errnos off to_read t = Some (Inr (), t')"
proof (induction "inbound s" arbitrary: s t off to_read)
  case Nil
  then show ?case by (simp add: read_loop.simps)
next
  case (Cons ev evs)
  show ?case
  proof (cases "to_read = 0")
    case True
    then show ?thesis by (simp add: read_loop.simps)
  next
    case False
    from Cons.prems(3) have fit: "to_read \<le> length (rbuf t) - off" by arith
    show ?thesis
    proof (cases ev)
      case (RecvRaises exc)
      with Cons.hyps(2) Cons.prems False have
        retry: "is_OSError exc \<and> \<not> initial \<and> errno_in (errno_of exc) errnos"
        and rest: "delivers initial errnos to_read evs"
        by (auto simp: Cons.hyps(2) [symmetric])
      let ?s' = "s\<lparr>inbound := evs\<rparr>"
      have r: "recv_into s (length (rbuf t) - off) to_read = Some (Inl exc, ?s')"
        using False fit RecvRaises Cons.hyps(2) [symmetric] by (simp add: recv_into_fits)
      have "\<exists>t'. read_loop initial errnos off to_read (t\<lparr>sock := Some ?s'\<rparr>) = Some (Inr (), t')"
        by (rule Cons.hyps(1) [of ?s']) (use rest Cons.prems(3) in simp_all)
      moreover have "read_loop initial errnos off to_read t
                     = read_loop initial errnos off to_read (t\<lparr>sock := Some ?s'\<rparr>)"
        using r retry False Cons.prems(1) by (subst read_loop.simps) simp
      ultimately show ?thesis by simp
    next
      case (Recv bs)
      with Cons.hyps(2) Cons.prems False have
        bs: "bs \<noteq> []" and rest: "delivers initial errnos (to_read - length bs) evs"
        by (auto simp: Cons.hyps(2) [symmetric])
      let ?got = "take to_read bs"
      let ?s' = "s\<lparr>inbound := (if length bs \<le> to_read then evs else Recv (drop to_read bs) # evs)\<rparr>"
      let ?t1 = "t\<lparr>sock := Some ?s',
                   rbuf := take off (rbuf t) @ ?got @ drop (off + length ?got) (rbuf t)\<rparr>"
      have r: "recv_into s (length (rbuf t) - off) to_read = Some (Inr ?got, ?s')"
        using False fit Recv Cons.hyps(2) [symmetric] by (simp add: recv_into_fits)
      from bs False have got: "?got \<noteq> []" by (cases bs) auto
      have "\<exists>t'. read_loop initial errnos (off + length ?got) (to_read - length ?got) ?t1
                 = Some (Inr (), t')"
      proof (cases "length bs \<le> to_read")
        case True
        show ?thesis
          by (rule Cons.hyps(1) [of ?s']) (use True rest Cons.prems(3) in \<open>simp_all add: min_absorb1\<close>)
      next
        case False
        then show ?thesis by (simp add: read_loop.simps min_absorb2)
      qed
      moreover have "read_loop initial errnos off to_read t
                     = read_loop initial errnos (off + length ?got) (to_read - length ?got) ?t1"
        using r got False Cons.prems(1) by (subst read_loop.simps) simp
      ultimately show ?thesis by simp
    qed
  qed
qed

lemma AbstractTransport_read_view:
  assumes "AbstractTransport_read n initial errnos t = Some (Inr view, t')"
  shows "length view = n \<and> view = take n (rbuf t') \<and> pending t = view @ pending t'
         \<and> length (rbuf t') = length (rbuf t)"
proof -
  from assms have loop: "read_loop initial errnos 0 n t = Some (Inr (), t')"
    and view: "view = take n (rbuf t')"
    by (auto simp: AbstractTransport_read_def split: option.splits sum.splits)
  from read_loop_fills [OF loop] obtain bs where
    bs: "length bs = n" "n \<le> length (rbuf t)" "rbuf t' = bs @ drop n (rbuf t)"
    "pending t = bs @ pending t'"
    by auto
  from view bs(1,3) have "view = bs" by simp
  moreover from bs(1,2,3) have "length (rbuf t') = length (rbuf t)" by simp
  ultimately show ?thesis using bs(1,4) view by simp
qed

text \<open>
  Claim C1. For every \<open>n\<close>, when the exact read (\<^verbatim>\<open>_read\<close>, and \<^verbatim>\<open>read\<close>
  of either variant) comes back with a view, the view has exactly \<open>n\<close> bytes: it is
  the first \<open>n\<close> bytes of the scratch buffer, and they are the next \<open>n\<close> bytes of
  the stream, none lost and none read ahead. Every other outcome is an exception. The read
  does come back with these bytes whenever \<open>n\<close> fits the buffer and the script
  delivers \<open>n\<close> bytes, however many receive calls that takes.
\<close>

theorem read_exact_never_short:
  "(AbstractTransport_read n initial errnos t = Some (Inr view, t') \<longrightarrow>
      length view = n \<and> view = take n (rbuf t') \<and> pending t = view @ pending t') \<and>
   (read n initial t = Some (Inr view, t') \<longrightarrow>
      length view = n \<and> view = take n (rbuf t') \<and> pending t = view @ pending t') \<and>
   (sock t = Some s \<and> delivers initial errnos n (inbound s) \<and> n \<le> length (rbuf t) \<longrightarrow>
      (\<exists>t'. AbstractTransport_read n initial errnos t
              = Some (Inr (take n (stream (inbound s))), t')))"
proof (intro conjI impI)
  assume "AbstractTransport_read n initial errnos t = Some (Inr view, t')"
  from AbstractTransport_read_view [OF this]
  show "length view = n" "view = take n (rbuf t')" "pending t = view @ pending t'"
    by blast+
next
  assume "read n initial t = Some (Inr view, t')"
  then obtain errnos' where "AbstractTransport_read n initial errnos' t = Some (Inr view, t')"
    by (auto simp: read_def split: variant.splits)
  from AbstractTransport_read_view [OF this]
  show "length view = n" "view = take n (rbuf t')" "pending t = view @ pending t'"
    by blast+
next
  assume a: "sock t = Some s \<and> delivers initial errnos n (inbound s) \<and> n \<le> length (rbuf t)"
  then obtain t' where loop: "read_loop initial errnos 0 n t = Some (Inr (), t')"
    using read_loop_returns [of t s initial errnos n 0] by auto
  then have r: "AbstractTransport_read n initial errnos t = Some (Inr (take n (rbuf t')), t')"
    by (simp add: AbstractTransport_read_def)
  from AbstractTransport_read_view [OF r] a
  have "take n (rbuf t') = take n (stream (inbound s))"
    by (simp add: pending_def)
  with r show "\<exists>t'. AbstractTransport_read n initial errnos t
                  = Some (Inr (take n (stream (inbound s))), t')"
    by auto
qed

theorem read_exact_never_short_witness:
  "AbstractTransport_read 5 False [EAGAIN, EINTR] reader_demo
     = Some (Inr [1, 2, 3, 4, 5], reader_demo_after) \<and>
   length [1, 2, 3, 4, 5 :: byte] = 5 \<and>
   pending reader_demo = [1, 2, 3, 4, 5] @ pending reader_demo_after"
proof -
  have run: "AbstractTransport_read 5 False [EAGAIN, EINTR] reader_demo
               = Some (Inr [1, 2, 3, 4, 5], reader_demo_after)"
    by (simp add: AbstractTransport_read_def read_loop.simps recv_into_def reader_demo_def
          reader_demo_after_def plain_socket_def EINTR_def EAGAIN_def)
  from read_exact_never_short [THEN conjunct1, THEN mp, OF run] run
  show ?thesis by blast
qed

subsection \<open>Transient errors during a read\<close>

lemma read_loop_error_event:
  assumes "sock t = Some s" and "inbound s = RecvRaises exc # rest"
    and "0 < to_read" and "off + to_read \<le> length (rbuf t)"
  shows "read_loop initial errnos off to_read t =
           (if is_OSError exc \<and> \<not> initial \<and> errno_in (errno_of exc) errnos
            then read_loop initial errnos off to_read (t\<lparr>sock := Some (s\<lparr>inbound := rest\<rparr>)\<rparr>)
            else Some (Inl exc, t\<lparr>sock := Some (s\<lparr>inbound := rest\<rparr>)\<rparr>))"
proof -
  from assms(3,4) have "to_read \<le> length (rbuf t) - off" by arith
  with assms(2,3) have
    "recv_into s (length (rbuf t) - off) to_read = Some (Inl exc, s\<lparr>inbound := rest\<rparr>)"
    by (simp add: recv_into_fits)
  with assms(1,3) show ?thesis
    by (subst read_loop.simps) simp
qed

text \<open>
  Claim C5. A receive call of an exact read raises \<open>exc\<close> (the request fits what is
  left of the buffer, so the call reaches the socket). At any point of the loop: when
  \<open>exc\<close> is an \<^verbatim>\<open>OSError\<close> whose code is in the set handed to \<^verbatim>\<open>_read\<close> and
  \<open>initial\<close> is false, the exception is swallowed and the loop goes on with the same
  request on the rest of the script; in every other case, so whenever \<open>initial\<close> is true
  or the code is outside the set, \<open>exc\<close> leaves the read. For \<^verbatim>\<open>TCPTransport.read\<close>
  the set is EAGAIN and EINTR; for \<^verbatim>\<open>SSLTransport.read\<close> it holds ENOENT as well.
\<close>

theorem transient_errors_retried:
  assumes "sock t = Some s" and "inbound s = RecvRaises exc # rest"
    and "0 < n" and "off + n \<le> length (rbuf t)"
  shows "read_loop initial errnos off n t =
           (if is_OSError exc \<and> \<not> initial \<and> errno_in (errno_of exc) errnos
            then read_loop initial errnos off n (t\<lparr>sock := Some (s\<lparr>inbound := rest\<rparr>)\<rparr>)
            else Some (Inl exc, t\<lparr>sock := Some (s\<lparr>inbound := rest\<rparr>)\<rparr>)) \<and>
         (off = 0 \<and> variant t = TCPTransport \<longrightarrow>
            read n initial t =
              (if is_OSError exc \<and> \<not> initial \<and> errno_of exc \<in> {Some EAGAIN, Some EINTR}
               then read n initial (t\<lparr>sock := Some (s\<lparr>inbound := rest\<rparr>)\<rparr>)
               else Some (Inl exc, t\<lparr>sock := Some (s\<lparr>inbound := rest\<rparr>)\<rparr>))) \<and>
         (off = 0 \<and> variant t = SSLTransport \<longrightarrow>
            read n initial t =
              (if is_OSError exc \<and> \<not> initial
                    \<and> errno_of exc \<in> {Some EAGAIN, Some EINTR, Some ENOENT}
               then read n initial (t\<lparr>sock := Some (s\<lparr>inbound := rest\<rparr>)\<rparr>)
               else Some (Inl exc, t\<lparr>sock := Some (s\<lparr>inbound := rest\<rparr>)\<rparr>)))"
proof (intro conjI impI)
  show "read_loop initial errnos off n t =
           (if is_OSError exc \<and> \<not> initial \<and> errno_in (errno_of exc) errnos
            then read_loop initial errnos off n (t\<lparr>sock := Some (s\<lparr>inbound := rest\<rparr>)\<rparr>)
            else Some (Inl exc, t\<lparr>sock := Some (s\<lparr>inbound := rest\<rparr>)\<rparr>))"
    by (rule read_loop_error_event [OF assms])
next
  assume "off = 0 \<and> variant t = TCPTransport"
  with read_loop_error_event [OF assms, of initial "[EAGAIN, EINTR]"]
  show "read n initial t =
           (if is_OSError exc \<and> \<not> initial \<and> errno_of exc \<in> {Some EAGAIN, Some EINTR}
            then read n initial (t\<lparr>sock := Some (s\<lparr>inbound := rest\<rparr>)\<rparr>)
            else Some (Inl exc, t\<lparr>sock := Some (s\<lparr>inbound := rest\<rparr>)\<rparr>))"
    by (cases "errno_of exc") (auto simp: read_def AbstractTransport_read_def)
next
  assume "off = 0 \<and> variant t = SSLTransport"
  with read_loop_error_event [OF assms, of initial "[ENOENT, EAGAIN, EINTR]"]
  show "read n initial t =
           (if is_OSError exc \<and> \<not> initial
                 \<and> errno_of exc \<in> {Some EAGAIN, Some EINTR, Some ENOENT}
            then read n initial (t\<lparr>sock := Some (s\<lparr>inbound := rest\<rparr>)\<rparr>)
            else Some (Inl exc, t\<lparr>sock := Some (s\<lparr>inbound := rest\<rparr>)\<rparr>))"
    by (cases "errno_of exc") (auto simp: read_def AbstractTransport_read_def)
qed

theorem transient_errors_retried_witness:
  "read 7 True eagain_demo
     = Some (Inl (OSError (Some EAGAIN) ''Resource temporarily unavailable''), eagain_demo_rest) \<and>
   read 7 False eagain_demo = read 7 False eagain_demo_rest \<and>
   read 7 False eagain_demo_rest
     = Some (Inr [8, 0, 0, 0, 0, 0, 0],
             eagain_demo_rest\<lparr>rbuf := [8, 0, 0, 0, 0, 0, 0, 0],
                                sock := Some (plain_socket [Recv [206]] [])\<rparr>)"
proof -
  have s: "sock eagain_demo = Some (plain_socket
        [RecvRaises (OSError (Some EAGAIN) ''Resource temporarily unavailable''),
         Recv [8, 0, 0, 0, 0, 0, 0, 206]] [])"
    and i: "inbound (plain_socket
        [RecvRaises (OSError (Some EAGAIN) ''Resource temporarily unavailable''),
         Recv [8, 0, 0, 0, 0, 0, 0, 206]] [])
      = RecvRaises (OSError (Some EAGAIN) ''Resource temporarily unavailable'')
          # [Recv [8, 0, 0, 0, 0, 0, 0, 206]]"
    and n: "(0::nat) < 7" and fit: "0 + 7 \<le> length (rbuf eagain_demo)"
    and v: "variant eagain_demo = TCPTransport"
    and r: "eagain_demo\<lparr>sock := Some (plain_socket
        [RecvRaises (OSError (Some EAGAIN) ''Resource temporarily unavailable''),
         Recv [8, 0, 0, 0, 0, 0, 0, 206]] []\<lparr>inbound := [Recv [8, 0, 0, 0, 0, 0, 0, 206]]\<rparr>)\<rparr>
      = eagain_demo_rest"
    by (simp_all add: eagain_demo_def eagain_demo_rest_def plain_socket_def)
  have run: "read 7 False eagain_demo_rest
     = Some (Inr [8, 0, 0, 0, 0, 0, 0],
             eagain_demo_rest\<lparr>rbuf := [8, 0, 0, 0, 0, 0, 0, 0],
                                sock := Some (plain_socket [Recv [206]] [])\<rparr>)"
    by (simp add: read_def AbstractTransport_read_def read_loop.simps recv_into_def
          eagain_demo_rest_def plain_socket_def)
  from transient_errors_retried [OF s i n fit, of True "[]"]
       transient_errors_retried [OF s i n fit, of False "[]"] v r run
  show ?thesis by simp
qed

subsection \<open>Reading a frame\<close>

lemma read_loop_frame:
  "read_loop initial errnos off to_read t = Some (r, t') \<Longrightarrow>
   t' = t\<lparr>sock := sock t', rbuf := rbuf t'\<rparr>"
proof (induction initial errnos off to_read t rule: read_loop.induct)
  case (1 initial errnos off to_read t)
  note run = "1.prems" [unfolded read_loop.simps [of initial errnos off to_read t]]
  show ?case
  proof (cases "to_read = 0")
    case True
    with run show ?thesis by simp
  next
    case False
    show ?thesis
    proof (cases "sock t")
      case None
      with False run show ?thesis by simp
    next
      case (Some s)
      with False run obtain x s' where
        r: "recv_into s (length (rbuf t) - off) to_read = Some (x, s')"
        by (auto split: option.splits)
      show ?thesis
      proof (cases x)
        case (Inl exc)
        show ?thesis
        proof (cases "is_OSError exc \<and> \<not> initial \<and> errno_in (errno_of exc) errnos")
          case True
          with False Some r Inl run
          have "read_loop initial errnos off to_read (t\<lparr>sock := Some s'\<rparr>) = Some (r, t')"
            by simp
          from "1.IH"(1) [OF False Some r refl Inl True this] show ?thesis
            by (cases t, cases t') simp
        next
          case no: False
          with False Some r Inl run show ?thesis by auto
        qed
      next
        case (Inr got)
        show ?thesis
        proof (cases "got = []")
          case True
          with False Some r Inr run show ?thesis by auto
        next
          case ne: False
          with False Some r Inr run
          have "read_loop initial errnos (off + length got) (to_read - length got)
                  (t\<lparr>sock := Some s',
                     rbuf := take off (rbuf t) @ got @ drop (off + length got) (rbuf t)\<rparr>)
                = Some (r, t')"
            by simp
          from "1.IH"(2) [OF False Some r refl Inr ne this] show ?thesis
            by (cases t, cases t') simp
        qed
      qed
    qed
  qed
qed

lemma AbstractTransport_read_frame:
  "AbstractTransport_read n initial errnos t = Some (r, t') \<Longrightarrow>
   t' = t\<lparr>sock := sock t', rbuf := rbuf t'\<rparr>"
  by (auto simp: AbstractTransport_read_def split: option.splits sum.splits prod.splits
        dest: read_loop_frame)

lemma read_frame_fields:
  assumes "read n initial t = Some (r, t')"
  shows "t' = t\<lparr>sock := sock t', rbuf := rbuf t'\<rparr>"
  using assms by (auto simp: read_def split: variant.splits dest: AbstractTransport_read_frame)

lemma read_keeps:
  assumes "read n initial t = Some (r, t')"
  shows "frame_lock t' = frame_lock t" and "connected t' = connected t"
    and "variant t' = variant t" and "dropped t' = dropped t" and "ssl_opts t' = ssl_opts t"
  using read_frame_fields [OF assms] by (cases t, cases t', simp)+

lemma read_view:
  assumes "read n initial t = Some (Inr view, t')"
  shows "length view = n" and "pending t = view @ pending t'"
proof -
  from assms obtain errnos where "AbstractTransport_read n initial errnos t = Some (Inr view, t')"
    by (auto simp: read_def split: variant.splits)
  from AbstractTransport_read_view [OF this]
  show "length view = n" and "pending t = view @ pending t'" by blast+
qed

lemma read_frame_unfold:
  "read_frame t =
     (if frame_lock t then None
      else (case read_frame_locked (t\<lparr>frame_lock := True\<rparr>) of
              None \<Rightarrow> None
            | Some (r, t') \<Rightarrow> Some (r, t'\<lparr>frame_lock := False\<rparr>)))"
  by (auto simp: read_frame_def synchronized_def acquire_def release_def split: option.splits)

lemma length_seven:
  assumes "length xs = 7"
  obtains a b c d e f g where "xs = [a, b, c, d, e, f, g]"
proof -
  from assms have "length xs = Suc (Suc (Suc (Suc (Suc (Suc (Suc 0))))))"
    by simp
  then show ?thesis
    by (auto simp only: length_Suc_conv length_0_conv intro: that)
qed

lemma payload_size_header:
  assumes "length hdr = 7"
  shows "payload_size \<lparr>data = hdr @ rest\<rparr> = payload_size \<lparr>data = hdr\<rparr>"
proof -
  from assms obtain a b c d e f g where "hdr = [a, b, c, d, e, f, g]"
    by (rule length_seven)
  then show ?thesis
    by (simp add: payload_size_def)
qed

lemma pending_frame_lock [simp]: "pending (t\<lparr>frame_lock := b\<rparr>) = pending t"
  by (simp add: pending_def)

lemma read_frame_try_Inr:
  assumes "read_frame_try t = Some (Inr (frame, b), t3)"
  shows "\<exists>hdr payload t1 t2.
           read 7 True t = Some (Inr hdr, t1) \<and>
           read (payload_size \<lparr>data = hdr\<rparr>) False t1 = Some (Inr payload, t2) \<and>
           read 1 False t2 = Some (Inr [b], t3) \<and>
           data frame = hdr @ payload @ [b]"
proof -
  obtain x1 t1 where r1: "read 7 True t = Some (x1, t1)"
    using assms by (cases "read 7 True t") (auto simp: read_frame_try_def)
  obtain hdr where x1: "x1 = Inr hdr"
    using assms r1 by (cases x1) (auto simp: read_frame_try_def)
  let ?n = "payload_size \<lparr>data = hdr\<rparr>"
  obtain x2 t2 where r2: "read ?n False t1 = Some (x2, t2)"
    using assms r1 x1 by (cases "read ?n False t1") (auto simp: read_frame_try_def)
  obtain payload where x2: "x2 = Inr payload"
    using assms r1 x1 r2 by (cases x2) (auto simp: read_frame_try_def)
  obtain x3 t3' where r3: "read 1 False t2 = Some (x3, t3')"
    using assms r1 x1 r2 x2 by (cases "read 1 False t2") (auto simp: read_frame_try_def)
  obtain z where x3: "x3 = Inr z"
    using assms r1 x1 r2 x2 r3 by (cases x3) (auto simp: read_frame_try_def)
  from read_view(1) [of 1 False t2 z t3'] r3 x3 have "length z = 1" by simp
  then obtain c where z: "z = [c]"
    by (cases z) auto
  from assms r1 x1 r2 x2 r3 x3 z
  have "c = b" "t3' = t3" "frame = \<lparr>data = hdr @ payload @ [b]\<rparr>"
    by (auto simp: read_frame_try_def)
  with r1 x1 r2 x2 r3 x3 z show ?thesis by auto
qed

lemma read_frame_try_three:
  assumes "read 7 True t = Some (Inr hdr, t1)"
    and "read (payload_size \<lparr>data = hdr\<rparr>) False t1 = Some (Inr payload, t2)"
    and "read 1 False t2 = Some (Inr z, t3)"
  shows "\<exists>b. z = [b] \<and>
           read_frame_try t = Some (Inr (\<lparr>data = hdr @ payload @ [b]\<rparr>, b), t3)"
proof -
  from read_view(1) [OF assms(3)] obtain b where "z = [b]"
    by (cases z) auto
  with assms show ?thesis
    by (simp add: read_frame_try_def)
qed

lemma read_frame_locked_Inr:
  assumes "read_frame_locked t = Some (Inr frame, t3)"
  shows "read_frame_try t = Some (Inr (frame, FrameType_END), t3)"
proof -
  obtain x t' where r: "read_frame_try t = Some (x, t')"
    using assms by (cases "read_frame_try t") (auto simp: read_frame_locked_def)
  show ?thesis
  proof (cases x)
    case (Inl exc)
    with assms r show ?thesis
      by (auto simp: read_frame_locked_def split: prod.splits)
  next
    case (Inr p)
    with assms r show ?thesis
      by (cases p) (auto simp: read_frame_locked_def split: if_splits)
  qed
qed

text \<open>
  Claim C2. A call of \<^verbatim>\<open>read_frame\<close> that returns a frame has made three exact
  reads, in this order: 7 bytes with \<open>initial\<close> true, then the payload size decoded
  from those 7 bytes with \<open>initial\<close> false, then 1 byte with \<open>initial\<close> false,
  which was 0xCE; the frame holds the three views appended in that order, and they are the
  next bytes of the stream. Whenever the three reads succeed, the call returns the frame
  if the last byte is 0xCE, and otherwise raises \<^verbatim>\<open>UnexpectedFrame\<close> with a message
  that names the byte in hexadecimal; it returns no frame then.
\<close>

theorem read_frame_protocol:
  "(read_frame t = Some (Inr frame, t') \<longrightarrow>
      pending t = data frame @ pending t' \<and>
      length (data frame) = 7 + payload_size frame + 1 \<and>
      (\<exists>hdr payload t1 t2 t3.
         read 7 True (t\<lparr>frame_lock := True\<rparr>) = Some (Inr hdr, t1) \<and>
         read (payload_size \<lparr>data = hdr\<rparr>) False t1 = Some (Inr payload, t2) \<and>
         read 1 False t2 = Some (Inr [FrameType_END], t3) \<and>
         t' = t3\<lparr>frame_lock := False\<rparr> \<and>
         payload_size frame = payload_size \<lparr>data = hdr\<rparr> \<and>
         data frame = hdr @ payload @ [FrameType_END])) \<and>
   (\<not> frame_lock t \<and>
    read 7 True (t\<lparr>frame_lock := True\<rparr>) = Some (Inr hdr, t1) \<and>
    read (payload_size \<lparr>data = hdr\<rparr>) False t1 = Some (Inr payload, t2) \<and>
    read 1 False t2 = Some (Inr z, t3) \<longrightarrow>
      (\<exists>b. z = [b] \<and>
         read_frame t =
           (if b = FrameType_END
            then Some (Inr \<lparr>data = hdr @ payload @ [b]\<rparr>, t3\<lparr>frame_lock := False\<rparr>)
            else Some (Inl (UnexpectedFrame
                    (''Received '' @ hex (unat b) @ '' while expecting 0xCE (FrameType.END)'')),
                  t3\<lparr>frame_lock := False\<rparr>))))"
proof (intro conjI impI)
  assume run: "read_frame t = Some (Inr frame, t')"
  let ?t = "t\<lparr>frame_lock := True\<rparr>"
  from run obtain t3 where locked: "read_frame_locked ?t = Some (Inr frame, t3)"
    and t': "t' = t3\<lparr>frame_lock := False\<rparr>"
    by (auto simp: read_frame_unfold split: if_splits option.splits)
  from read_frame_try_Inr [OF read_frame_locked_Inr [OF locked]]
  obtain hdr payload t1 t2 where
    h: "read 7 True ?t = Some (Inr hdr, t1)" and
    p: "read (payload_size \<lparr>data = hdr\<rparr>) False t1 = Some (Inr payload, t2)" and
    z: "read 1 False t2 = Some (Inr [FrameType_END], t3)" and
    d: "data frame = hdr @ payload @ [FrameType_END]"
    by blast
  from read_view [OF h] have lh: "length hdr = 7" and ph: "pending t = hdr @ pending t1"
    by simp_all
  from read_view [OF p] have lp: "length payload = payload_size \<lparr>data = hdr\<rparr>"
    and pp: "pending t1 = payload @ pending t2"
    by simp_all
  from read_view [OF z] have pz: "pending t2 = [FrameType_END] @ pending t3"
    by simp
  have size: "payload_size frame = payload_size \<lparr>data = hdr\<rparr>"
    using payload_size_header [OF lh, of "payload @ [FrameType_END]"] d
    by (cases frame) simp
  show "pending t = data frame @ pending t'"
    using ph pp pz d t' by simp
  show "length (data frame) = 7 + payload_size frame + 1"
    using d lh lp size by simp
  show "\<exists>hdr payload t1 t2 t3.
         read 7 True (t\<lparr>frame_lock := True\<rparr>) = Some (Inr hdr, t1) \<and>
         read (payload_size \<lparr>data = hdr\<rparr>) False t1 = Some (Inr payload, t2) \<and>
         read 1 False t2 = Some (Inr [FrameType_END], t3) \<and>
         t' = t3\<lparr>frame_lock := False\<rparr> \<and>
         payload_size frame = payload_size \<lparr>data = hdr\<rparr> \<and>
         data frame = hdr @ payload @ [FrameType_END]"
    using h p z t' size d by blast
next
  assume a: "\<not> frame_lock t \<and>
    read 7 True (t\<lparr>frame_lock := True\<rparr>) = Some (Inr hdr, t1) \<and>
    read (payload_size \<lparr>data = hdr\<rparr>) False t1 = Some (Inr payload, t2) \<and>
    read 1 False t2 = Some (Inr z, t3)"
  then obtain b where b: "z = [b]" and
    tr: "read_frame_try (t\<lparr>frame_lock := True\<rparr>)
            = Some (Inr (\<lparr>data = hdr @ payload @ [b]\<rparr>, b), t3)"
    using read_frame_try_three [of "t\<lparr>frame_lock := True\<rparr>" hdr t1 payload t2 z t3] by blast
  from a tr have "read_frame t =
           (if b = FrameType_END
            then Some (Inr \<lparr>data = hdr @ payload @ [b]\<rparr>, t3\<lparr>frame_lock := False\<rparr>)
            else Some (Inl (UnexpectedFrame
                    (''Received '' @ hex (unat b) @ '' while expecting 0xCE (FrameType.END)'')),
                  t3\<lparr>frame_lock := False\<rparr>))"
    by (simp add: read_frame_unfold read_frame_locked_def)
  with b show "\<exists>b. z = [b] \<and>
         read_frame t =
           (if b = FrameType_END
            then Some (Inr \<lparr>data = hdr @ payload @ [b]\<rparr>, t3\<lparr>frame_lock := False\<rparr>)
            else Some (Inl (UnexpectedFrame
                    (''Received '' @ hex (unat b) @ '' while expecting 0xCE (FrameType.END)'')),
                  t3\<lparr>frame_lock := False\<rparr>))"
    by blast
qed

lemma frame_demo_run:
  "read_frame frame_demo
     = Some (Inr \<lparr>data = [1, 0, 1, 0, 0, 0, 2, 170, 187, 206]\<rparr>, frame_demo_after)"
  by (simp add: read_frame_unfold read_frame_locked_def read_frame_try_def read_def
        AbstractTransport_read_def read_loop.simps recv_into_def payload_size_def
        FrameType_END_def frame_demo_def frame_demo_after_def plain_socket_def)

lemma bad_frame_demo_run:
  "read_frame bad_frame_demo
     = Some (Inl (UnexpectedFrame ''Received 0xab while expecting 0xCE (FrameType.END)''),
             bad_frame_demo_after)"
  by (simp add: read_frame_unfold read_frame_locked_def read_frame_try_def read_def
        AbstractTransport_read_def read_loop.simps recv_into_def payload_size_def
        FrameType_END_def hex_def hex_digit_def
        bad_frame_demo_def bad_frame_demo_after_def plain_socket_def)

theorem read_frame_protocol_witness:
  "read_frame frame_demo
     = Some (Inr \<lparr>data = [1, 0, 1, 0, 0, 0, 2, 170, 187, 206]\<rparr>, frame_demo_after) \<and>
   pending frame_demo = [1, 0, 1, 0, 0, 0, 2, 170, 187, 206] @ pending frame_demo_after \<and>
   payload_size \<lparr>data = [1, 0, 1, 0, 0, 0, 2, 170, 187, 206]\<rparr> = 2 \<and>
   read_frame bad_frame_demo
     = Some (Inl (UnexpectedFrame ''Received 0xab while expecting 0xCE (FrameType.END)''),
             bad_frame_demo_after)"
proof -
  have "payload_size \<lparr>data = [1, 0, 1, 0, 0, 0, 2, 170, 187, 206]\<rparr> = 2"
    by (simp add: payload_size_def)
  with read_frame_protocol [THEN conjunct1, THEN mp, OF frame_demo_run]
    frame_demo_run bad_frame_demo_run
  show ?thesis by simp
qed

subsection \<open>Writing through TLS\<close>

lemma sock_write_accepts:
  "outbound s = Accepts k # rest \<Longrightarrow>
   sock_write s bs = Some (Inr (min k (length bs)),
                           s\<lparr>outbound := rest, wire := wire s @ take k bs\<rparr>)"
  by (simp add: sock_write_def min_def)

lemma write_loop_step:
  assumes "bs \<noteq> []" and "outbound s = Accepts k # rest" and "0 < k"
  shows "write_loop bs s
           = write_loop (drop k bs) (s\<lparr>outbound := rest, wire := wire s @ take k bs\<rparr>)"
proof -
  from assms(1) have "0 < length bs" by simp
  with assms(3) have "min k (length bs) \<noteq> 0" by arith
  moreover have "drop (min k (length bs)) bs = drop k bs" by (simp add: min_def)
  moreover note sock_write_accepts [OF assms(2), of bs]
  ultimately have "write_loop bs s = write_loop (drop (min k (length bs)) bs)
                     (s\<lparr>outbound := rest, wire := wire s @ take k bs\<rparr>)"
    using assms(1) by (subst write_loop.simps) (simp del: min_less_iff_conj)
  then show ?thesis by (simp add: min_def)
qed

lemma write_loop_zero:
  assumes "bs \<noteq> []" and "outbound s = Accepts 0 # rest"
  shows "write_loop bs s = Some (Inl (OSError None ''Socket closed''), s\<lparr>outbound := rest\<rparr>)"
  using assms sock_write_accepts [OF assms(2), of bs]
  by (subst write_loop.simps) simp

lemma write_loop_wire:
  "write_loop bs s = Some (Inr u, s') \<Longrightarrow> wire s' = wire s @ bs"
proof (induction bs s rule: write_loop.induct)
  case (1 bs s)
  note run = "1.prems" [unfolded write_loop.simps [of bs s]]
  show ?case
  proof (cases "bs = []")
    case True
    with run show ?thesis by simp
  next
    case False
    with run obtain x s1 where w: "sock_write s bs = Some (x, s1)"
      by (auto split: option.splits)
    show ?thesis
    proof (cases x)
      case (Inl exc)
      with False w run show ?thesis by simp
    next
      case (Inr n)
      with False w run have n: "n \<noteq> 0" and again: "write_loop (drop n bs) s1 = Some (Inr u, s')"
        by (auto split: if_splits)
      from w Inr have "wire s1 = wire s @ take n bs"
        by (auto simp: sock_write_def min_def split: list.splits send_event.splits if_splits)
      with "1.IH" [OF False w refl Inr n again] show ?thesis by simp
    qed
  qed
qed

lemma accepts_all_zero [simp]: "accepts_all 0 evs"
  by (cases "(0::nat, evs)" rule: accepts_all.cases) auto

lemma write_loop_returns:
  "accepts_all (length bs) (outbound s) \<Longrightarrow> \<exists>s'. write_loop bs s = Some (Inr (), s')"
proof (induction "outbound s" arbitrary: s bs)
  case Nil
  then show ?case by (simp add: write_loop.simps)
next
  case (Cons ev evs)
  show ?case
  proof (cases "bs = []")
    case True
    then show ?thesis by (simp add: write_loop.simps)
  next
    case False
    with Cons.prems Cons.hyps(2) [symmetric] obtain k where ev: "ev = Accepts k" and k: "0 < k"
      and rest: "accepts_all (length bs - k) evs"
      by (cases ev) auto
    let ?s' = "s\<lparr>outbound := evs, wire := wire s @ take k bs\<rparr>"
    from ev Cons.hyps(2) have out: "outbound s = Accepts k # evs" by simp
    have "\<exists>s'. write_loop (drop k bs) ?s' = Some (Inr (), s')"
      by (rule Cons.hyps(1)) (use rest in simp_all)
    with write_loop_step [OF False out k] show ?thesis by simp
  qed
qed

text \<open>
  Claim C8. When \<^verbatim>\<open>SSLTransport.write\<close> returns, every byte of its argument has been
  handed to the peer, in order. A write call that accepts only some of the bytes is
  followed by a call with the remaining suffix; a write call that accepts none makes the
  method raise \<^verbatim>\<open>IOError('Socket closed')\<close>, at whatever point of the loop it
  occurs, so that a partial write is never reported as success. The method does return
  whenever each write call on the way accepts at least one byte.
\<close>

theorem ssl_write_sends_all:
  "(SSLTransport_write bs t = Some (Inr u, t') \<longrightarrow>
      (\<exists>s s'. sock t = Some s \<and> sock t' = Some s' \<and> wire s' = wire s @ bs)) \<and>
   (bs \<noteq> [] \<and> outbound s = Accepts k # rest \<and> 0 < k \<longrightarrow>
      write_loop bs s
        = write_loop (drop k bs) (s\<lparr>outbound := rest, wire := wire s @ take k bs\<rparr>)) \<and>
   (bs \<noteq> [] \<and> outbound s = Accepts 0 # rest \<longrightarrow>
      write_loop bs s = Some (Inl (OSError None ''Socket closed''), s\<lparr>outbound := rest\<rparr>)) \<and>
   (sock t = Some s \<and> tls s \<and> accepts_all (length bs) (outbound s) \<longrightarrow>
      (\<exists>t'. SSLTransport_write bs t = Some (Inr (), t')))"
proof (intro conjI impI)
  assume "SSLTransport_write bs t = Some (Inr u, t')"
  then obtain s s' where "sock t = Some s" "write_loop bs s = Some (Inr u, s')"
    "t' = t\<lparr>sock := Some s'\<rparr>"
    by (auto simp: SSLTransport_write_def split: option.splits if_splits)
  with write_loop_wire [of bs s u s']
  show "\<exists>s s'. sock t = Some s \<and> sock t' = Some s' \<and> wire s' = wire s @ bs"
    by simp
next
  assume "bs \<noteq> [] \<and> outbound s = Accepts k # rest \<and> 0 < k"
  then show "write_loop bs s
        = write_loop (drop k bs) (s\<lparr>outbound := rest, wire := wire s @ take k bs\<rparr>)"
    by (simp add: write_loop_step)
next
  assume "bs \<noteq> [] \<and> outbound s = Accepts 0 # rest"
  then show "write_loop bs s
        = Some (Inl (OSError None ''Socket closed''), s\<lparr>outbound := rest\<rparr>)"
    by (simp add: write_loop_zero)
next
  assume a: "sock t = Some s \<and> tls s \<and> accepts_all (length bs) (outbound s)"
  then obtain s' where "write_loop bs s = Some (Inr (), s')"
    using write_loop_returns by blast
  with a show "\<exists>t'. SSLTransport_write bs t = Some (Inr (), t')"
    by (simp add: SSLTransport_write_def)
qed

lemma tls_demo_run:
  "SSLTransport_write [1, 2, 3, 4, 5, 6, 7, 8, 9, 10] (tls_demo [] [Accepts 4, Accepts 4, Accepts 4])
     = Some (Inr (), (tls_demo [] [])\<lparr>sock := Some ((tls_socket [] [])
          \<lparr>wire := [1, 2, 3, 4, 5, 6, 7, 8, 9, 10]\<rparr>)\<rparr>)"
  by (simp add: SSLTransport_write_def write_loop.simps sock_write_def tls_demo_def
        tls_socket_def)

lemma tls_demo_closed_run:
  "SSLTransport_write [1, 2, 3, 4, 5, 6] (tls_demo [] [Accepts 4, Accepts 0, Accepts 4])
     = Some (Inl (OSError None ''Socket closed''),
             (tls_demo [] [Accepts 4])\<lparr>sock := Some ((tls_socket [] [Accepts 4])
          \<lparr>wire := [1, 2, 3, 4]\<rparr>)\<rparr>)"
  by (simp add: SSLTransport_write_def write_loop.simps sock_write_def tls_demo_def
        tls_socket_def)

theorem ssl_write_sends_all_witness:
  "SSLTransport_write [1, 2, 3, 4, 5, 6, 7, 8, 9, 10] (tls_demo [] [Accepts 4, Accepts 4, Accepts 4])
     = Some (Inr (), (tls_demo [] [])\<lparr>sock := Some ((tls_socket [] [])
          \<lparr>wire := [1, 2, 3, 4, 5, 6, 7, 8, 9, 10]\<rparr>)\<rparr>) \<and>
   accepts_all (length [1, 2, 3, 4, 5, 6, 7, 8, 9, 10 :: byte]) [Accepts 4, Accepts 4, Accepts 4] \<and>
   write_loop [5, 6] ((tls_socket [] [Accepts 0, Accepts 4])\<lparr>wire := [1, 2, 3, 4]\<rparr>)
     = Some (Inl (OSError None ''Socket closed''),
             (tls_socket [] [Accepts 4])\<lparr>wire := [1, 2, 3, 4]\<rparr>) \<and>
   SSLTransport_write [1, 2, 3, 4, 5, 6] (tls_demo [] [Accepts 4, Accepts 0, Accepts 4])
     = Some (Inl (OSError None ''Socket closed''),
             (tls_demo [] [Accepts 4])\<lparr>sock := Some ((tls_socket [] [Accepts 4])
          \<lparr>wire := [1, 2, 3, 4]\<rparr>)\<rparr>)"
proof -
  have acc: "accepts_all (length [1, 2, 3, 4, 5, 6, 7, 8, 9, 10 :: byte])
               [Accepts 4, Accepts 4, Accepts 4]"
    by simp
  have z: "[5, 6 :: byte] \<noteq> [] \<and>
      outbound ((tls_socket [] [Accepts 0, Accepts 4])\<lparr>wire := [1, 2, 3, 4]\<rparr>)
        = Accepts 0 # [Accepts 4]"
    by (simp add: tls_socket_def)
  from ssl_write_sends_all [THEN conjunct2, THEN conjunct2, THEN conjunct1, THEN mp, OF z]
  have "write_loop [5, 6] ((tls_socket [] [Accepts 0, Accepts 4])\<lparr>wire := [1, 2, 3, 4]\<rparr>)
     = Some (Inl (OSError None ''Socket closed''),
             (tls_socket [] [Accepts 4])\<lparr>wire := [1, 2, 3, 4]\<rparr>)"
    by (simp add: tls_socket_def)
  with acc tls_demo_run tls_demo_closed_run show ?thesis by simp
qed

subsection \<open>Timeouts and the connected flag\<close>

lemma transport_write_frame:
  "transport_write bs t = Some (r, t') \<Longrightarrow> t' = t\<lparr>sock := sock t'\<rparr>"
  by (auto simp: transport_write_def SSLTransport_write_def TCPTransport_write_def
        split: variant.splits option.splits if_splits)

lemma transport_write_keeps:
  assumes "transport_write bs t = Some (r, t')"
  shows "frame_lock t' = frame_lock t" and "connected t' = connected t"
    and "variant t' = variant t" and "dropped t' = dropped t" and "rbuf t' = rbuf t"
  using transport_write_frame [OF assms] by (cases t, cases t', simp)+

lemma write_frame_unfold:
  "write_frame frame t =
     (if frame_lock t then None
      else (case write_frame_locked frame (t\<lparr>frame_lock := True\<rparr>) of
              None \<Rightarrow> None
            | Some (r, t') \<Rightarrow> Some (r, t'\<lparr>frame_lock := False\<rparr>)))"
  by (auto simp: write_frame_def synchronized_def acquire_def release_def split: option.splits)

lemma read_frame_try_frame:
  assumes "read_frame_try t = Some (r, t')"
  shows "connected t' = connected t \<and> frame_lock t' = frame_lock t"
proof -
  obtain x1 t1 where r1: "read 7 True t = Some (x1, t1)"
    using assms by (cases "read 7 True t") (auto simp: read_frame_try_def)
  note k1 = read_keeps(1,2) [OF r1]
  show ?thesis
  proof (cases x1)
    case Inl
    with assms r1 k1 show ?thesis by (auto simp: read_frame_try_def)
  next
    case (Inr hdr)
    let ?n = "payload_size \<lparr>data = hdr\<rparr>"
    obtain x2 t2 where r2: "read ?n False t1 = Some (x2, t2)"
      using assms r1 Inr by (cases "read ?n False t1") (auto simp: read_frame_try_def)
    note k2 = read_keeps(1,2) [OF r2]
    show ?thesis
    proof (cases x2)
      case Inl
      with assms r1 \<open>x1 = Inr hdr\<close> r2 k1 k2 show ?thesis by (auto simp: read_frame_try_def)
    next
      case (Inr payload)
      obtain x3 t3 where r3: "read 1 False t2 = Some (x3, t3)"
        using assms r1 \<open>x1 = Inr hdr\<close> r2 Inr
        by (cases "read 1 False t2") (auto simp: read_frame_try_def)
      note k3 = read_keeps(1,2) [OF r3]
      from assms r1 \<open>x1 = Inr hdr\<close> r2 Inr r3 have "t' = t3"
        by (cases x3) (auto simp: read_frame_try_def split: list.splits)
      with k1 k2 k3 show ?thesis by simp
    qed
  qed
qed

lemma write_frame_locked_raises:
  assumes "write_frame_locked frame t = Some (Inl exc, t')"
  shows "(is_timeout exc \<longrightarrow> connected t' = connected t) \<and>
         (is_OSError exc \<and> \<not> is_timeout exc \<and> \<not> errno_in (get_errno exc) UNAVAIL
            \<longrightarrow> \<not> connected t')"
proof -
  obtain x t1 where w: "transport_write (data frame) t = Some (x, t1)"
    using assms by (cases "transport_write (data frame) t") (auto simp: write_frame_locked_def)
  note k = transport_write_keeps(2) [OF w]
  from assms w k show ?thesis
    by (cases x) (auto simp: write_frame_locked_def split: if_splits)
qed

lemma read_frame_locked_raises:
  assumes "read_frame_locked t = Some (Inl exc, t')"
  shows "(is_timeout exc \<longrightarrow> connected t' = connected t) \<and>
         (is_OSError exc \<and> \<not> is_timeout exc \<and> \<not> errno_in (get_errno exc) UNAVAIL
            \<longrightarrow> \<not> connected t')"
proof -
  obtain x t1 where r: "read_frame_try t = Some (x, t1)"
    using assms by (cases "read_frame_try t") (auto simp: read_frame_locked_def)
  from read_frame_try_frame [OF r] have k: "connected t1 = connected t" by simp
  show ?thesis
  proof (cases x)
    case (Inl e)
    with assms r k show ?thesis
      by (auto simp: read_frame_locked_def read_frame_except_def split: if_splits)
  next
    case (Inr p)
    with assms r k show ?thesis
      by (cases p) (auto simp: read_frame_locked_def split: if_splits)
  qed
qed

text \<open>
  Claim C9. When \<^verbatim>\<open>write_frame\<close> or \<^verbatim>\<open>read_frame\<close> raises a
  \<^verbatim>\<open>socket.timeout\<close>, \<^verbatim>\<open>connected\<close> is what it was before the call; when
  either raises another \<^verbatim>\<open>OSError\<close> whose code is not in \<^verbatim>\<open>_UNAVAIL\<close>,
  \<^verbatim>\<open>connected\<close> is false. \<^verbatim>\<open>write_frame\<close> raises the very exception that
  \<^verbatim>\<open>write\<close> raised; \<^verbatim>\<open>read_frame\<close> does too, except that an
  \<^verbatim>\<open>SSLError\<close> whose text contains "timed out" leaves it as a fresh
  \<^verbatim>\<open>socket.timeout\<close>.
\<close>

theorem timeouts_keep_connected:
  "(write_frame frame t = Some (Inl exc, t') \<longrightarrow>
      (is_timeout exc \<longrightarrow> connected t' = connected t) \<and>
      (is_OSError exc \<and> \<not> is_timeout exc \<and> \<not> errno_in (get_errno exc) UNAVAIL
         \<longrightarrow> \<not> connected t')) \<and>
   (\<not> frame_lock t \<and>
    transport_write (data frame) (t\<lparr>frame_lock := True\<rparr>) = Some (Inl exc, t1) \<longrightarrow>
      (\<exists>t'. write_frame frame t = Some (Inl exc, t'))) \<and>
   (read_frame t = Some (Inl exc, t') \<longrightarrow>
      (is_timeout exc \<longrightarrow> connected t' = connected t) \<and>
      (is_OSError exc \<and> \<not> is_timeout exc \<and> \<not> errno_in (get_errno exc) UNAVAIL
         \<longrightarrow> \<not> connected t')) \<and>
   (\<not> frame_lock t \<and> read_frame_try (t\<lparr>frame_lock := True\<rparr>) = Some (Inl exc, t1) \<longrightarrow>
      (\<exists>t'. read_frame t =
         Some (Inl (if is_SSLError exc \<and> str_contains ''timed out'' (str_of exc)
                    then SocketTimeout None [] else exc), t')))"
proof -
  have w1: "write_frame frame t = Some (Inl exc, t') \<longrightarrow>
      (is_timeout exc \<longrightarrow> connected t' = connected t) \<and>
      (is_OSError exc \<and> \<not> is_timeout exc \<and> \<not> errno_in (get_errno exc) UNAVAIL
         \<longrightarrow> \<not> connected t')"
  proof
    assume "write_frame frame t = Some (Inl exc, t')"
    then obtain t2 where
      "write_frame_locked frame (t\<lparr>frame_lock := True\<rparr>) = Some (Inl exc, t2)"
      and "t' = t2\<lparr>frame_lock := False\<rparr>"
      by (auto simp: write_frame_unfold split: if_splits option.splits)
    with write_frame_locked_raises [of frame "t\<lparr>frame_lock := True\<rparr>" exc t2]
    show "(is_timeout exc \<longrightarrow> connected t' = connected t) \<and>
      (is_OSError exc \<and> \<not> is_timeout exc \<and> \<not> errno_in (get_errno exc) UNAVAIL
         \<longrightarrow> \<not> connected t')"
      by simp
  qed
  have w2: "\<not> frame_lock t \<and>
    transport_write (data frame) (t\<lparr>frame_lock := True\<rparr>) = Some (Inl exc, t1) \<longrightarrow>
      (\<exists>t'. write_frame frame t = Some (Inl exc, t'))"
    by (simp add: write_frame_unfold write_frame_locked_def)
  have r1: "read_frame t = Some (Inl exc, t') \<longrightarrow>
      (is_timeout exc \<longrightarrow> connected t' = connected t) \<and>
      (is_OSError exc \<and> \<not> is_timeout exc \<and> \<not> errno_in (get_errno exc) UNAVAIL
         \<longrightarrow> \<not> connected t')"
  proof
    assume "read_frame t = Some (Inl exc, t')"
    then obtain t2 where "read_frame_locked (t\<lparr>frame_lock := True\<rparr>) = Some (Inl exc, t2)"
      and "t' = t2\<lparr>frame_lock := False\<rparr>"
      by (auto simp: read_frame_unfold split: if_splits option.splits)
    with read_frame_locked_raises [of "t\<lparr>frame_lock := True\<rparr>" exc t2]
    show "(is_timeout exc \<longrightarrow> connected t' = connected t) \<and>
      (is_OSError exc \<and> \<not> is_timeout exc \<and> \<not> errno_in (get_errno exc) UNAVAIL
         \<longrightarrow> \<not> connected t')"
      by simp
  qed
  have r2: "\<not> frame_lock t \<and> read_frame_try (t\<lparr>frame_lock := True\<rparr>) = Some (Inl exc, t1) \<longrightarrow>
      (\<exists>t'. read_frame t =
         Some (Inl (if is_SSLError exc \<and> str_contains ''timed out'' (str_of exc)
                    then SocketTimeout None [] else exc), t'))"
    by (cases exc) (simp_all add: read_frame_unfold read_frame_locked_def read_frame_except_def)
  show ?thesis
    by (rule conjI [OF w1 conjI [OF w2 conjI [OF r1 r2]]])
qed

lemma write_timeout_run:
  "write_frame heartbeat (tcp_demo [] [SendRaises (SocketTimeout None ''timed out'')])
     = Some (Inl (SocketTimeout None ''timed out''), tcp_demo [] [])"
  by (simp add: write_frame_unfold write_frame_locked_def transport_write_def
        TCPTransport_write_def sendall_def tcp_demo_def plain_socket_def heartbeat_def)

lemma write_epipe_run:
  "write_frame heartbeat (tcp_demo [] [SendRaises (OSError (Some EPIPE) ''Broken pipe'')])
     = Some (Inl (OSError (Some EPIPE) ''Broken pipe''), (tcp_demo [] [])\<lparr>connected := False\<rparr>)"
  by (simp add: write_frame_unfold write_frame_locked_def transport_write_def
        TCPTransport_write_def sendall_def tcp_demo_def plain_socket_def heartbeat_def
        get_errno_def UNAVAIL_def EPIPE_def EAGAIN_def EINTR_def ENOENT_def)

lemma read_ssl_timeout_run:
  "read_frame (tls_demo [RecvRaises (SSLError None ''The read operation timed out'')] [])
     = Some (Inl (SocketTimeout None []), tls_demo [] [])"
  by (simp add: read_frame_unfold read_frame_locked_def read_frame_try_def read_def
        AbstractTransport_read_def read_loop.simps recv_into_def read_frame_except_def
        tls_demo_def tls_socket_def)

theorem timeouts_keep_connected_witness:
  "write_frame heartbeat (tcp_demo [] [SendRaises (SocketTimeout None ''timed out'')])
     = Some (Inl (SocketTimeout None ''timed out''), tcp_demo [] []) \<and>
   connected (tcp_demo [] []) \<and>
   write_frame heartbeat (tcp_demo [] [SendRaises (OSError (Some EPIPE) ''Broken pipe'')])
     = Some (Inl (OSError (Some EPIPE) ''Broken pipe''), (tcp_demo [] [])\<lparr>connected := False\<rparr>) \<and>
   \<not> connected ((tcp_demo [] [])\<lparr>connected := False\<rparr>) \<and>
   read_frame (tls_demo [RecvRaises (SSLError None ''The read operation timed out'')] [])
     = Some (Inl (SocketTimeout None []), tls_demo [] []) \<and>
   connected (tls_demo [] [])"
proof -
  from timeouts_keep_connected [THEN conjunct1, THEN mp, OF write_timeout_run]
  have "connected (tcp_demo [] [])"
    by (simp add: tcp_demo_def)
  moreover
  from timeouts_keep_connected [THEN conjunct2, THEN conjunct2, THEN conjunct1, THEN mp,
         OF read_ssl_timeout_run]
  have "connected (tls_demo [] [])"
    by (simp add: tls_demo_def)
  ultimately show ?thesis
    using write_timeout_run write_epipe_run read_ssl_timeout_run by simp
qed

subsection \<open>After a failure\<close>

lemma connected_update_out:
  "t\<lparr>connected := c, sock := s\<rparr> = t\<lparr>sock := s, connected := c\<rparr>"
  "t\<lparr>connected := c, rbuf := b\<rparr> = t\<lparr>rbuf := b, connected := c\<rparr>"
  "t\<lparr>connected := c, frame_lock := l\<rparr> = t\<lparr>frame_lock := l, connected := c\<rparr>"
  by (cases t, simp)+

lemma read_loop_connected:
  "read_loop initial errnos off to_read (t\<lparr>connected := c\<rparr>)
     = map_option (\<lambda>(x, t'). (x, t'\<lparr>connected := c\<rparr>)) (read_loop initial errnos off to_read t)"
proof (induction initial errnos off to_read t rule: read_loop.induct)
  case (1 initial errnos off to_read t)
  note L = read_loop.simps [of initial errnos off to_read "t\<lparr>connected := c\<rparr>"]
  note R = read_loop.simps [of initial errnos off to_read t]
  show ?case
  proof (cases "to_read = 0")
    case True
    then show ?thesis unfolding L R by (simp add: connected_update_out)
  next
    case False
    show ?thesis
    proof (cases "sock t")
      case None
      with False show ?thesis unfolding L R by (simp add: connected_update_out)
    next
      case (Some s)
      show ?thesis
      proof (cases "recv_into s (length (rbuf t) - off) to_read")
        case None
        with False Some show ?thesis unfolding L R by (simp add: connected_update_out)
      next
        case (Some p)
        obtain x s' where p: "p = (x, s')" by (cases p)
        show ?thesis
        proof (cases x)
          case (Inl exc)
          show ?thesis
          proof (cases "is_OSError exc \<and> \<not> initial \<and> errno_in (errno_of exc) errnos")
            case True
            from "1.IH"(1) [OF False \<open>sock t = Some s\<close> Some p [symmetric] Inl True]
              False \<open>sock t = Some s\<close> Some p Inl True
            show ?thesis unfolding L R by (simp add: connected_update_out)
          next
            case no: False
            with False \<open>sock t = Some s\<close> Some p Inl show ?thesis unfolding L R by (auto simp: connected_update_out)
          qed
        next
          case (Inr got)
          show ?thesis
          proof (cases "got = []")
            case True
            with False \<open>sock t = Some s\<close> Some p Inr show ?thesis unfolding L R by (simp add: connected_update_out)
          next
            case ne: False
            from "1.IH"(2) [OF False \<open>sock t = Some s\<close> Some p [symmetric] Inr ne]
              False \<open>sock t = Some s\<close> Some p Inr ne
            show ?thesis unfolding L R by (simp add: connected_update_out)
          qed
        qed
      qed
    qed
  qed
qed

lemma read_connected:
  "read n initial (t\<lparr>connected := c\<rparr>)
     = map_option (\<lambda>(x, t'). (x, t'\<lparr>connected := c\<rparr>)) (read n initial t)"
  by (auto simp: read_def AbstractTransport_read_def read_loop_connected
        split: variant.splits option.splits sum.splits)

lemma read_frame_try_connected:
  "read_frame_try (t\<lparr>connected := c\<rparr>)
     = map_option (\<lambda>(x, t'). (x, t'\<lparr>connected := c\<rparr>)) (read_frame_try t)"
proof (cases "read 7 True t")
  case None
  then show ?thesis by (simp add: read_frame_try_def read_connected)
next
  case (Some p1)
  obtain x1 t1 where p1: "p1 = (x1, t1)" by (cases p1)
  show ?thesis
  proof (cases x1)
    case (Inl exc)
    with Some p1 show ?thesis by (simp add: read_frame_try_def read_connected)
  next
    case (Inr hdr)
    let ?n = "payload_size \<lparr>data = hdr\<rparr>"
    show ?thesis
    proof (cases "read ?n False t1")
      case None
      with Some p1 Inr show ?thesis by (simp add: read_frame_try_def read_connected)
    next
      case s2: (Some p2)
      obtain x2 t2 where p2: "p2 = (x2, t2)" by (cases p2)
      show ?thesis
      proof (cases x2)
        case (Inl exc)
        with Some p1 Inr s2 p2 show ?thesis by (simp add: read_frame_try_def read_connected)
      next
        case i2: (Inr payload)
        show ?thesis
        proof (cases "read 1 False t2")
          case None
          with Some p1 Inr s2 p2 i2 show ?thesis
            by (simp add: read_frame_try_def read_connected)
        next
          case s3: (Some p3)
          obtain x3 t3 where p3: "p3 = (x3, t3)" by (cases p3)
          from Some p1 Inr s2 p2 i2 s3 p3 show ?thesis
            by (cases x3) (simp_all add: read_frame_try_def read_connected split: list.splits)
        qed
      qed
    qed
  qed
qed

lemma read_frame_locked_io:
  "io_view (read_frame_locked (t\<lparr>connected := c\<rparr>)) = io_view (read_frame_locked t)"
proof (cases "read_frame_try t")
  case None
  then show ?thesis by (simp add: read_frame_locked_def read_frame_try_connected io_view_def)
next
  case (Some p)
  obtain x t1 where p: "p = (x, t1)" by (cases p)
  show ?thesis
  proof (cases x)
    case (Inl exc)
    with Some p show ?thesis
      by (simp add: read_frame_locked_def read_frame_try_connected io_view_def
            read_frame_except_def)
  next
    case (Inr q)
    with Some p show ?thesis
      by (cases q)
         (simp add: read_frame_locked_def read_frame_try_connected io_view_def)
  qed
qed

lemma io_view_release:
  "io_view (case r of None \<Rightarrow> None | Some (x, t') \<Rightarrow> Some (x, t'\<lparr>frame_lock := False\<rparr>))
     = io_view r"
  by (auto simp: io_view_def split: option.splits)

lemma read_frame_io:
  "io_view (read_frame (t\<lparr>connected := c\<rparr>)) = io_view (read_frame t)"
  using read_frame_locked_io [where t = "t\<lparr>frame_lock := True\<rparr>" and c = c]
  by (simp add: read_frame_unfold io_view_release connected_update_out)

lemma transport_write_connected:
  "transport_write bs (t\<lparr>connected := c\<rparr>)
     = map_option (\<lambda>(x, t'). (x, t'\<lparr>connected := c\<rparr>)) (transport_write bs t)"
  by (auto simp: transport_write_def SSLTransport_write_def TCPTransport_write_def
        connected_update_out split: variant.splits option.splits)

lemma write_frame_locked_io:
  "io_view (write_frame_locked frame (t\<lparr>connected := c\<rparr>))
     = io_view (write_frame_locked frame t)"
proof (cases "transport_write (data frame) t")
  case None
  then show ?thesis by (simp add: write_frame_locked_def transport_write_connected io_view_def)
next
  case (Some p)
  obtain x t1 where p: "p = (x, t1)" by (cases p)
  with Some show ?thesis
    by (cases x)
       (simp_all add: write_frame_locked_def transport_write_connected io_view_def)
qed

lemma write_frame_io:
  "io_view (write_frame frame (t\<lparr>connected := c\<rparr>)) = io_view (write_frame frame t)"
  using write_frame_locked_io [where t = "t\<lparr>frame_lock := True\<rparr>" and c = c and frame = frame]
  by (simp add: write_frame_unfold io_view_release connected_update_out)

lemma read_frame_locked_unexpected:
  assumes "read_frame_locked t = Some (Inl (UnexpectedFrame m), t')"
  shows "connected t' = connected t"
proof -
  obtain x t1 where r: "read_frame_try t = Some (x, t1)"
    using assms by (cases "read_frame_try t") (auto simp: read_frame_locked_def)
  from read_frame_try_frame [OF r] have k: "connected t1 = connected t" by simp
  show ?thesis
  proof (cases x)
    case (Inl e)
    with assms r k show ?thesis
      by (auto simp: read_frame_locked_def read_frame_except_def split: if_splits)
  next
    case (Inr p)
    with assms r k show ?thesis
      by (cases p) (auto simp: read_frame_locked_def split: if_splits)
  qed
qed

lemma peer_closed_run:
  "read_frame (tcp_demo [Recv []] [Accepts 8])
     = Some (Inl (OSError None ''socket closed''), (tcp_demo [] [Accepts 8])\<lparr>connected := False\<rparr>)"
  by (simp add: read_frame_unfold read_frame_locked_def read_frame_try_def read_def
        AbstractTransport_read_def read_loop.simps recv_into_def read_frame_except_def
        get_errno_def tcp_demo_def plain_socket_def)

lemma write_after_close_run:
  "write_frame heartbeat ((tcp_demo [] [Accepts 8])\<lparr>connected := False\<rparr>)
     = Some (Inr (), (tcp_demo [] [])\<lparr>connected := False,
          sock := Some ((plain_socket [] [])\<lparr>wire := [8, 0, 0, 0, 0, 0, 0, 206]\<rparr>)\<rparr>)"
  by (simp add: write_frame_unfold write_frame_locked_def transport_write_def
        TCPTransport_write_def sendall_def tcp_demo_def plain_socket_def heartbeat_def)

text \<open>
  Claim C4 as stated does not hold. A frame whose last byte is 0xAB makes
  \<^verbatim>\<open>read_frame\<close> raise \<^verbatim>\<open>UnexpectedFrame\<close> and leaves \<^verbatim>\<open>connected\<close>
  true: the exception is raised after the \<^verbatim>\<open>try\<close> statement, out of reach of the
  handler that clears the flag. And after a read that failed because the peer closed,
  with \<^verbatim>\<open>connected\<close> false, the next \<^verbatim>\<open>write_frame\<close> hands its 8 bytes to
  the socket and returns: neither method looks at the flag.
\<close>

theorem disconnected_not_gated_counterexample:
  "read_frame bad_frame_demo
     = Some (Inl (UnexpectedFrame ''Received 0xab while expecting 0xCE (FrameType.END)''),
             bad_frame_demo_after) \<and>
   connected bad_frame_demo_after \<and>
   read_frame (tcp_demo [Recv []] [Accepts 8])
     = Some (Inl (OSError None ''socket closed''), (tcp_demo [] [Accepts 8])\<lparr>connected := False\<rparr>) \<and>
   write_frame heartbeat ((tcp_demo [] [Accepts 8])\<lparr>connected := False\<rparr>)
     = Some (Inr (), (tcp_demo [] [])\<lparr>connected := False,
          sock := Some ((plain_socket [] [])\<lparr>wire := [8, 0, 0, 0, 0, 0, 0, 206]\<rparr>)\<rparr>)"
  using bad_frame_demo_run peer_closed_run write_after_close_run
  by (simp add: bad_frame_demo_after_def)

text \<open>
  Claim C4, amended. After \<^verbatim>\<open>read_frame\<close> fails because a receive call returned no
  byte (\<^verbatim>\<open>IOError('socket closed')\<close>), or \<^verbatim>\<open>write_frame\<close> fails because a
  TLS write accepted no byte (\<^verbatim>\<open>IOError('Socket closed')\<close>), \<^verbatim>\<open>connected\<close> is
  false. A frame-format error leaves \<^verbatim>\<open>connected\<close> as it was. The two methods do
  not consult the flag: whatever its value, a call gives the same result and makes the
  same calls on the socket.
\<close>

theorem peer_closed_clears_connected:
  "(read_frame t = Some (Inl (OSError None ''socket closed''), t') \<longrightarrow> \<not> connected t') \<and>
   (write_frame frame t = Some (Inl (OSError None ''Socket closed''), t') \<longrightarrow> \<not> connected t') \<and>
   (read_frame t = Some (Inl (UnexpectedFrame m), t') \<longrightarrow> connected t' = connected t) \<and>
   io_view (read_frame (t\<lparr>connected := c\<rparr>)) = io_view (read_frame t) \<and>
   io_view (write_frame frame (t\<lparr>connected := c\<rparr>)) = io_view (write_frame frame t)"
proof -
  have r: "read_frame t = Some (Inl (OSError None ''socket closed''), t') \<longrightarrow> \<not> connected t'"
  proof
    assume "read_frame t = Some (Inl (OSError None ''socket closed''), t')"
    then obtain t2 where
      "read_frame_locked (t\<lparr>frame_lock := True\<rparr>) = Some (Inl (OSError None ''socket closed''), t2)"
      and "t' = t2\<lparr>frame_lock := False\<rparr>"
      by (auto simp: read_frame_unfold split: if_splits option.splits)
    with read_frame_locked_raises [of "t\<lparr>frame_lock := True\<rparr>" "OSError None ''socket closed''" t2]
    show "\<not> connected t'"
      by (simp add: get_errno_def)
  qed
  have w: "write_frame frame t = Some (Inl (OSError None ''Socket closed''), t') \<longrightarrow> \<not> connected t'"
  proof
    assume "write_frame frame t = Some (Inl (OSError None ''Socket closed''), t')"
    then obtain t2 where
      "write_frame_locked frame (t\<lparr>frame_lock := True\<rparr>)
         = Some (Inl (OSError None ''Socket closed''), t2)"
      and "t' = t2\<lparr>frame_lock := False\<rparr>"
      by (auto simp: write_frame_unfold split: if_splits option.splits)
    with write_frame_locked_raises
           [of frame "t\<lparr>frame_lock := True\<rparr>" "OSError None ''Socket closed''" t2]
    show "\<not> connected t'"
      by (simp add: get_errno_def)
  qed
  have u: "read_frame t = Some (Inl (UnexpectedFrame m), t') \<longrightarrow> connected t' = connected t"
  proof
    assume "read_frame t = Some (Inl (UnexpectedFrame m), t')"
    then obtain t2 where
      "read_frame_locked (t\<lparr>frame_lock := True\<rparr>) = Some (Inl (UnexpectedFrame m), t2)"
      and "t' = t2\<lparr>frame_lock := False\<rparr>"
      by (auto simp: read_frame_unfold split: if_splits option.splits)
    with read_frame_locked_unexpected [of "t\<lparr>frame_lock := True\<rparr>" m t2]
    show "connected t' = connected t"
      by simp
  qed
  show ?thesis
    by (rule conjI [OF r conjI [OF w conjI [OF u conjI [OF read_frame_io write_frame_io]]]])
qed

theorem peer_closed_clears_connected_witness:
  "read_frame (tcp_demo [Recv []] [Accepts 8])
     = Some (Inl (OSError None ''socket closed''), (tcp_demo [] [Accepts 8])\<lparr>connected := False\<rparr>) \<and>
   \<not> connected ((tcp_demo [] [Accepts 8])\<lparr>connected := False\<rparr>) \<and>
   read_frame bad_frame_demo
     = Some (Inl (UnexpectedFrame ''Received 0xab while expecting 0xCE (FrameType.END)''),
             bad_frame_demo_after) \<and>
   connected bad_frame_demo_after = connected bad_frame_demo \<and>
   io_view (write_frame heartbeat ((tcp_demo [] [Accepts 8])\<lparr>connected := False\<rparr>))
     = io_view (write_frame heartbeat (tcp_demo [] [Accepts 8]))"
proof -
  from peer_closed_clears_connected [THEN conjunct1, THEN mp, OF peer_closed_run]
  have a: "\<not> connected ((tcp_demo [] [Accepts 8])\<lparr>connected := False\<rparr>)" .
  from peer_closed_clears_connected
         [THEN conjunct2, THEN conjunct2, THEN conjunct1, THEN mp, OF bad_frame_demo_run]
  have b: "connected bad_frame_demo_after = connected bad_frame_demo" .
  from peer_closed_clears_connected
         [where frame = heartbeat and t = "tcp_demo [] [Accepts 8]" and c = False,
          THEN conjunct2, THEN conjunct2, THEN conjunct2, THEN conjunct2]
  have c: "io_view (write_frame heartbeat ((tcp_demo [] [Accepts 8])\<lparr>connected := False\<rparr>))
     = io_view (write_frame heartbeat (tcp_demo [] [Accepts 8]))" .
  from a b c peer_closed_run bad_frame_demo_run show ?thesis by blast
qed

subsection \<open>The frame lock\<close>











subsection \<open>Connecting\<close>

lemma connect_loop_refused:
  "\<forall>a \<in> set fails. refused a \<Longrightarrow> sock t = None \<Longrightarrow>
   connect_loop (fails @ rest) last_err t
     = connect_loop rest (last_error fails last_err)
         (t\<lparr>sock := None, dropped := rev (closed_sockets fails) @ dropped t\<rparr>)"
proof (induction fails arbitrary: t last_err)
  case Nil
  then show ?case by (cases t) simp
next
  case (Cons a fails)
  from Cons.prems(1) obtain s exc where a: "a = ConnectRaises s exc" and os: "is_OSError exc"
    by (cases a) auto
  let ?t1 = "t\<lparr>sock := None, dropped := s\<lparr>closed := True\<rparr> # dropped t\<rparr>"
  from Cons.prems(2) a os
  have "connect_loop ((a # fails) @ rest) last_err t = connect_loop (fails @ rest) (Some exc) ?t1"
    by (simp add: close_and_clear_def set_sock_def)
  also have "\<dots> = connect_loop rest (last_error fails (Some exc))
                     (?t1\<lparr>sock := None, dropped := rev (closed_sockets fails) @ dropped ?t1\<rparr>)"
    using Cons.prems(1) by (intro Cons.IH) simp_all
  finally show ?case using a by simp
qed

lemma closed_sockets_closed: "\<forall>s \<in> set (closed_sockets res). closed s"
  by (induction res rule: closed_sockets.induct) auto

lemma length_closed_sockets:
  "\<forall>a \<in> set fails. refused a \<Longrightarrow> length (closed_sockets fails) = length fails"
  by (induction fails rule: closed_sockets.induct) auto

text \<open>
  What the loop does as long as every failure is a failure of \<^verbatim>\<open>connect\<close>: the
  failed sockets are closed one by one, \<^verbatim>\<open>last_err\<close> is the most recent error, the
  first candidate that connects is kept, and with none the constructor raises
  \<^verbatim>\<open>socket.error(last_err)\<close>.
\<close>

lemma connect_failures_handled:
  assumes "\<forall>a \<in> set fails. refused a" and "sock t = None"
  shows "connect_loop (fails @ Connects s # rest) last_err t
           = (Inr (last_error fails last_err),
              t\<lparr>sock := Some s, dropped := rev (closed_sockets fails) @ dropped t\<rparr>) \<and>
         connect_loop fails last_err t
           = (Inr (last_error fails last_err),
              t\<lparr>sock := None, dropped := rev (closed_sockets fails) @ dropped t\<rparr>) \<and>
         AbstractTransport_init cls opts (Inr fails) buf_size
           = Some (Inl (SocketErrorOf (last_error fails None)),
                   (blank_transport cls opts buf_size)
                     \<lparr>dropped := rev (closed_sockets fails)\<rparr>) \<and>
         length (closed_sockets fails) = length fails \<and>
         (\<forall>s' \<in> set (closed_sockets fails). closed s')"
proof (intro conjI)
  show "connect_loop (fails @ Connects s # rest) last_err t
           = (Inr (last_error fails last_err),
              t\<lparr>sock := Some s, dropped := rev (closed_sockets fails) @ dropped t\<rparr>)"
    using connect_loop_refused [OF assms, of "Connects s # rest" last_err]
    by (simp add: set_sock_def)
  show "connect_loop fails last_err t
           = (Inr (last_error fails last_err),
              t\<lparr>sock := None, dropped := rev (closed_sockets fails) @ dropped t\<rparr>)"
    using connect_loop_refused [OF assms, of "[]" last_err] by simp
  show "AbstractTransport_init cls opts (Inr fails) buf_size
           = Some (Inl (SocketErrorOf (last_error fails None)),
                   (blank_transport cls opts buf_size)
                     \<lparr>dropped := rev (closed_sockets fails)\<rparr>)"
    using connect_loop_refused [OF assms(1), of _ "[]" None]
    by (simp add: AbstractTransport_init_def init_except_def blank_transport_def)
  show "length (closed_sockets fails) = length fails"
    using assms(1) by (rule length_closed_sockets)
  show "\<forall>s' \<in> set (closed_sockets fails). closed s'"
    by (rule closed_sockets_closed)
qed

lemma second_candidate_run:
  "AbstractTransport_init TCPTransport []
     (Inr [ConnectRaises refusing_socket refusal, Connects accepting_socket]) 8
   = Some (Inr (),
       (blank_transport TCPTransport [] 8)
         \<lparr>sock := Some ((plain_socket [] [])\<lparr>wire := AMQP_PROTOCOL_HEADER\<rparr>),
          connected := True,
          dropped := [refusing_socket\<lparr>closed := True\<rparr>]\<rparr>)"
  by (simp add: AbstractTransport_init_def init_except_def blank_transport_def close_and_clear_def set_sock_def
        init_try_def init_options_def and_then_def sock_ctl_def setup_transport_def transport_write_def
        TCPTransport_write_def sendall_def AMQP_PROTOCOL_HEADER_def
        refusing_socket_def accepting_socket_def refusal_def plain_socket_def)

lemma connect_failures_handled_example:
  "connect_loop ([ConnectRaises refusing_socket refusal] @ Connects accepting_socket # [])
       None (blank_transport TCPTransport [] 8)
     = (Inr (Some refusal),
        (blank_transport TCPTransport [] 8)
          \<lparr>sock := Some accepting_socket, dropped := [refusing_socket\<lparr>closed := True\<rparr>]\<rparr>) \<and>
   AbstractTransport_init TCPTransport [] (Inr [ConnectRaises refusing_socket refusal]) 8
     = Some (Inl (SocketErrorOf (Some refusal)),
             (blank_transport TCPTransport [] 8)
               \<lparr>dropped := [refusing_socket\<lparr>closed := True\<rparr>]\<rparr>) \<and>
   AbstractTransport_init TCPTransport []
     (Inr [ConnectRaises refusing_socket refusal, Connects accepting_socket]) 8
   = Some (Inr (),
       (blank_transport TCPTransport [] 8)
         \<lparr>sock := Some ((plain_socket [] [])\<lparr>wire := AMQP_PROTOCOL_HEADER\<rparr>),
          connected := True,
          dropped := [refusing_socket\<lparr>closed := True\<rparr>]\<rparr>)"
proof -
  have f: "\<forall>a \<in> set [ConnectRaises refusing_socket refusal]. refused a"
    by (simp add: refusal_def)
  have n: "sock (blank_transport TCPTransport [] 8) = None"
    by (simp add: blank_transport_def)
  from connect_failures_handled [OF f n, of accepting_socket "[]" None TCPTransport "[]" 8]
    second_candidate_run
  show ?thesis by (simp add: blank_transport_def)
qed

text \<open>
  Claim C6 describes what the loop is written to do, and the code misses it when
  \<^verbatim>\<open>socket.socket(af, socktype, proto)\<close> itself raises a \<^verbatim>\<open>socket.error\<close>, as
  it does for an address family the host does not support. The handler then runs
  \<^verbatim>\<open>self.sock.close()\<close> with \<^verbatim>\<open>self.sock\<close> still \<^verbatim>\<open>None\<close>: an
  \<^verbatim>\<open>AttributeError\<close> leaves the constructor, the next candidate is never tried
  although it would connect, and what is raised is not the connection error that carries
  the last underlying error. The same happens after an earlier candidate was refused.
\<close>

theorem socket_creation_failure_stops_connect:
  "connect_loop [CreateRaises unsupported, Connects accepting_socket] None
       (blank_transport TCPTransport [] 8)
     = (Inl (AttributeError ''close''), blank_transport TCPTransport [] 8) \<and>
   AbstractTransport_init TCPTransport []
       (Inr [CreateRaises unsupported, Connects accepting_socket]) 8
     = Some (Inl (AttributeError ''close''), blank_transport TCPTransport [] 8) \<and>
   AbstractTransport_init TCPTransport []
       (Inr [ConnectRaises refusing_socket refusal, CreateRaises unsupported,
             Connects accepting_socket]) 8
     = Some (Inl (AttributeError ''close''),
             (blank_transport TCPTransport [] 8)
               \<lparr>dropped := [refusing_socket\<lparr>closed := True\<rparr>]\<rparr>) \<and>
   AbstractTransport_init TCPTransport [] (Inr [Connects accepting_socket]) 8
     = Some (Inr (),
         (blank_transport TCPTransport [] 8)
           \<lparr>sock := Some ((plain_socket [] [])\<lparr>wire := AMQP_PROTOCOL_HEADER\<rparr>),
            connected := True\<rparr>)"
  by (simp add: AbstractTransport_init_def init_except_def blank_transport_def
        close_and_clear_def set_sock_def init_try_def init_options_def and_then_def
        sock_ctl_def setup_transport_def transport_write_def TCPTransport_write_def
        sendall_def AMQP_PROTOCOL_HEADER_def unsupported_def refusal_def
        refusing_socket_def accepting_socket_def plain_socket_def)

subsection \<open>A failure after the connect\<close>

lemma steady_refl [simp]: "steady t t"
  by (simp add: steady_def)

lemma steady_trans: "steady t t1 \<Longrightarrow> steady t1 t2 \<Longrightarrow> steady t t2"
  by (simp add: steady_def)

lemma sock_ctl_steady: "sock_ctl t = Some (r, t') \<Longrightarrow> steady t t' \<and> same_closed t t'"
  by (auto simp: sock_ctl_def steady_def same_closed_def split: option.splits list.splits)

lemma setup_transport_steady: "setup_transport t = Some (r, t') \<Longrightarrow> steady t t'"
  by (auto simp: setup_transport_def steady_def split: variant.splits option.splits)

lemma write_loop_closed: "write_loop bs s = Some (r, s') \<Longrightarrow> closed s' = closed s \<and> tls s' = tls s"
proof (induction bs s rule: write_loop.induct)
  case (1 bs s)
  note run = "1.prems" [unfolded write_loop.simps [of bs s]]
  show ?case
  proof (cases "bs = []")
    case True
    with run show ?thesis by simp
  next
    case False
    with run obtain x s1 where w: "sock_write s bs = Some (x, s1)"
      by (auto split: option.splits)
    then have k: "closed s1 = closed s \<and> tls s1 = tls s"
      by (auto simp: sock_write_def split: list.splits send_event.splits)
    show ?thesis
    proof (cases x)
      case (Inl exc)
      with False w run k show ?thesis by simp
    next
      case (Inr n)
      show ?thesis
      proof (cases "n = 0")
        case True
        with False w run k Inr show ?thesis by simp
      next
        case ne: False
        with False w run Inr have "write_loop (drop n bs) s1 = Some (r, s')" by simp
        from "1.IH" [OF False w refl Inr ne this] k show ?thesis by simp
      qed
    qed
  qed
qed

lemma sendall_closed: "sendall s bs = Some (r, s') \<Longrightarrow> closed s' = closed s \<and> tls s' = tls s"
  by (auto simp: sendall_def split: option.splits)

lemma SSLTransport_write_steady:
  assumes "SSLTransport_write bs t = Some (r, t')"
  shows "steady t t' \<and> same_closed t t' \<and> same_tls t t'"
proof (cases "sock t")
  case None
  with assms show ?thesis by (auto simp: SSLTransport_write_def steady_def same_closed_def same_tls_def)
next
  case (Some s)
  show ?thesis
  proof (cases "tls s")
    case False
    with Some assms show ?thesis by (auto simp: SSLTransport_write_def steady_def same_closed_def same_tls_def)
  next
    case True
    with Some assms obtain s' where w: "write_loop bs s = Some (r, s')"
      and t': "t' = t\<lparr>sock := Some s'\<rparr>"
      by (cases "write_loop bs s") (auto simp: SSLTransport_write_def)
    from write_loop_closed [OF w] Some t' show ?thesis
      by (simp add: steady_def same_closed_def same_tls_def)
  qed
qed

lemma TCPTransport_write_steady:
  assumes "TCPTransport_write bs t = Some (r, t')"
  shows "steady t t' \<and> same_closed t t' \<and> same_tls t t'"
proof (cases "sock t")
  case None
  with assms show ?thesis by (auto simp: TCPTransport_write_def steady_def same_closed_def same_tls_def)
next
  case (Some s)
  with assms obtain s' where w: "sendall s bs = Some (r, s')"
    and t': "t' = t\<lparr>sock := Some s'\<rparr>"
    by (cases "sendall s bs") (auto simp: TCPTransport_write_def)
  from sendall_closed [OF w] Some t' show ?thesis
    by (simp add: steady_def same_closed_def same_tls_def)
qed

lemma transport_write_steady:
  "transport_write bs t = Some (r, t') \<Longrightarrow> steady t t' \<and> same_closed t t' \<and> same_tls t t'"
  by (cases "variant t")
     (simp_all add: transport_write_def SSLTransport_write_steady TCPTransport_write_steady)

lemma and_then_cases:
  assumes "and_then r f = Some (x, t')"
  obtains (raised) exc where "r = Some (Inl exc, t')" and "x = Inl exc"
    | (went_on) t1 where "r = Some (Inr (), t1)" and "f t1 = Some (x, t')"
proof (cases r)
  case None
  with assms show ?thesis by (simp add: and_then_def)
next
  case (Some p)
  obtain y t1 where p: "p = (y, t1)" by (cases p)
  show ?thesis
  proof (cases y)
    case (Inl exc)
    with assms Some p show ?thesis by (auto simp: and_then_def intro: raised)
  next
    case (Inr u)
    with assms Some p show ?thesis by (auto simp: and_then_def intro: went_on)
  qed
qed

lemma and_then_steady:
  assumes run: "and_then r f = Some (x, t')"
    and first: "\<And>y t1. r = Some (y, t1) \<Longrightarrow> P t t1"
    and then_f: "\<And>t1 y t2. f t1 = Some (y, t2) \<Longrightarrow> P t1 t2"
    and trans: "\<And>a b c. P a b \<Longrightarrow> P b c \<Longrightarrow> P a c"
  shows "P t t'"
  using run
proof (cases rule: and_then_cases)
  case (raised exc)
  from raised(1) show ?thesis by (rule first)
next
  case (went_on t1)
  from went_on(1) have "P t t1" by (rule first)
  moreover from went_on(2) have "P t1 t'" by (rule then_f)
  ultimately show ?thesis by (rule trans)
qed



lemma same_closed_trans: "same_closed t t1 \<Longrightarrow> same_closed t1 t2 \<Longrightarrow> same_closed t t2"
  by (simp add: same_closed_def)

lemma init_options_steady:
  assumes "init_options t = Some (x, t')"
  shows "steady t t' \<and> same_closed t t'"
  using assms unfolding init_options_def
  apply (rule and_then_steady [where P = "\<lambda>t t'. steady t t' \<and> same_closed t t'"])
    apply (erule and_then_steady [where P = "\<lambda>t t'. steady t t' \<and> same_closed t t'"])
      apply (erule sock_ctl_steady)
     apply (erule sock_ctl_steady)
    apply (blast intro: steady_trans same_closed_trans)
   apply (erule sock_ctl_steady)
  apply (blast intro: steady_trans same_closed_trans)
  done

lemma init_try_steady:
  assumes "init_try t = Some (x, t')"
  shows "steady t t'"
  using assms unfolding init_try_def
  apply (rule and_then_steady [where P = steady])
    apply (erule and_then_steady [where P = steady])
      apply (drule init_options_steady, simp)
     apply (erule setup_transport_steady)
    apply (erule (1) steady_trans)
   apply (drule transport_write_steady, simp)
  apply (erule (1) steady_trans)
  done




lemma connect_loop_keeps:
  "connect_loop res last_err t = (r, t') \<Longrightarrow>
   connected t' = connected t \<and> variant t' = variant t"
proof (induction res last_err t rule: connect_loop.induct)
  case (1 last_err t)
  then show ?case by simp
next
  case (2 exc res last_err t)
  then show ?case
    by (auto simp: close_and_clear_def set_sock_def split: if_splits option.splits sum.splits)
next
  case (3 s exc res last_err t)
  then show ?case
    by (auto simp: close_and_clear_def set_sock_def split: if_splits option.splits sum.splits)
next
  case (4 s res last_err t)
  then show ?case by (auto simp: set_sock_def)
qed






subsection \<open>Choosing the class of the transport\<close>

lemma connect_loop_plain:
  "connect_loop res last_err t = (r, t') \<Longrightarrow> \<forall>a \<in> set res. plain_attempt a \<Longrightarrow>
   (\<forall>s. sock t = Some s \<longrightarrow> \<not> tls s) \<Longrightarrow> (\<forall>s. sock t' = Some s \<longrightarrow> \<not> tls s)"
proof (induction res last_err t rule: connect_loop.induct)
  case (1 last_err t)
  then show ?case by simp
next
  case (2 exc res last_err t)
  then show ?case
    by (auto simp: close_and_clear_def set_sock_def split: if_splits option.splits sum.splits)
next
  case (3 s exc res last_err t)
  then show ?case
    by (auto simp: close_and_clear_def set_sock_def split: if_splits option.splits sum.splits)
next
  case (4 s res last_err t)
  then show ?case by (auto simp: set_sock_def)
qed

lemma sock_ctl_same_tls: "sock_ctl t = Some (r, t') \<Longrightarrow> same_tls t t'"
  by (auto simp: sock_ctl_def same_tls_def split: option.splits list.splits)

lemma same_tls_trans: "same_tls t t1 \<Longrightarrow> same_tls t1 t2 \<Longrightarrow> same_tls t t2"
  by (simp add: same_tls_def)

lemma init_options_same_tls:
  assumes "init_options t = Some (x, t')"
  shows "same_tls t t'"
  using assms unfolding init_options_def
  apply (rule and_then_steady [where P = same_tls])
    apply (erule and_then_steady [where P = same_tls])
      apply (erule sock_ctl_same_tls)
     apply (erule sock_ctl_same_tls)
    apply (erule (1) same_tls_trans)
   apply (erule sock_ctl_same_tls)
  apply (erule (1) same_tls_trans)
  done

lemma init_try_plain:
  assumes "init_try t = Some (x, t')"
  shows "variant t = TCPTransport \<longrightarrow> variant t' = TCPTransport \<and> same_tls t t'"
proof
  assume v: "variant t = TCPTransport"
  from init_try_steady [OF assms] v have v': "variant t' = TCPTransport"
    by (simp add: steady_def)
  have "same_tls t t'"
  proof (cases "init_options t")
    case None
    with assms show ?thesis by (simp add: init_try_def and_then_def)
  next
    case (Some p)
    obtain y ta where p: "p = (y, ta)" by (cases p)
    from init_options_steady [of t y ta] init_options_same_tls [of t y ta] Some p v
    have va: "variant ta = TCPTransport" and ta: "same_tls t ta"
      by (simp_all add: steady_def)
    show ?thesis
    proof (cases y)
      case (Inl e)
      with Some p assms ta show ?thesis by (simp add: init_try_def and_then_def)
    next
      case (Inr u)
      from va have "setup_transport ta = Some (Inr (), ta)"
        by (simp add: setup_transport_def)
      with Some p Inr assms have "transport_write AMQP_PROTOCOL_HEADER ta = Some (x, t')"
        by (simp add: init_try_def and_then_def)
      from transport_write_steady [OF this] ta show ?thesis
        by (blast intro: same_tls_trans)
    qed
  qed
  with v' show "variant t' = TCPTransport \<and> same_tls t t'" by simp
qed

lemma AbstractTransport_init_variant:
  assumes "AbstractTransport_init cls opts addrinfo buf_size = Some (r, t)"
  shows "variant t = cls"
proof (cases addrinfo)
  case (Inl exc)
  with assms show ?thesis
    by (auto simp: AbstractTransport_init_def init_except_def blank_transport_def)
next
  case (Inr res)
  obtain x t1 where c: "connect_loop res None (blank_transport cls opts buf_size) = (x, t1)"
    by (cases "connect_loop res None (blank_transport cls opts buf_size)")
  from connect_loop_keeps [OF c] have v1: "variant t1 = cls"
    by (simp add: blank_transport_def)
  show ?thesis
  proof (cases x)
    case (Inl exc)
    with assms Inr c v1 show ?thesis by (auto simp: AbstractTransport_init_def)
  next
    case last: (Inr last_err)
    show ?thesis
    proof (cases "sock t1")
      case None
      with assms Inr c last v1 show ?thesis by (auto simp: AbstractTransport_init_def)
    next
      case (Some s)
      with assms Inr c last obtain y t2 where i: "init_try t1 = Some (y, t2)"
        by (cases "init_try t1") (auto simp: AbstractTransport_init_def)
      from init_try_steady [OF i] v1 have "variant t2 = cls"
        by (simp add: steady_def)
      with assms Inr c last Some i show ?thesis
        by (cases y) (auto simp: AbstractTransport_init_def init_except_def split: if_splits)
    qed
  qed
qed

lemma TCPTransport_init_plain:
  assumes "AbstractTransport_init TCPTransport opts (Inr res) buf_size = Some (r, t)"
    and "\<forall>a \<in> set res. plain_attempt a" and "sock t = Some s"
  shows "\<not> tls s"
proof -
  obtain x t1 where c: "connect_loop res None (blank_transport TCPTransport opts buf_size) = (x, t1)"
    by (cases "connect_loop res None (blank_transport TCPTransport opts buf_size)")
  from connect_loop_plain [OF c assms(2)] have p1: "\<forall>s. sock t1 = Some s \<longrightarrow> \<not> tls s"
    by (simp add: blank_transport_def)
  from connect_loop_keeps [OF c] have v1: "variant t1 = TCPTransport"
    by (simp add: blank_transport_def)
  show ?thesis
  proof (cases x)
    case (Inl exc)
    with assms c p1 show ?thesis by (auto simp: AbstractTransport_init_def)
  next
    case last: (Inr last_err)
    show ?thesis
    proof (cases "sock t1")
      case None
      with assms c last show ?thesis by (auto simp: AbstractTransport_init_def)
    next
      case (Some s1)
      with assms c last obtain y t2 where i: "init_try t1 = Some (y, t2)"
        by (cases "init_try t1") (auto simp: AbstractTransport_init_def)
      from init_try_plain [OF i] v1 p1 have "\<forall>s. sock t2 = Some s \<longrightarrow> \<not> tls s"
        by (auto simp: same_tls_def Some)
      with assms c last Some i show ?thesis
        by (cases y) (auto simp: AbstractTransport_init_def init_except_def split: if_splits)
    qed
  qed
qed

text \<open>
  Claim C10. For every value of \<^verbatim>\<open>ssl_opts\<close>, \<^verbatim>\<open>create_transport\<close> builds an
  \<^verbatim>\<open>SSLTransport\<close> if and only if the value is a dictionary. For any other value,
  \<^verbatim>\<open>None\<close>, \<^verbatim>\<open>True\<close> or any other object, truthy or not, the call is the
  construction of a \<^verbatim>\<open>TCPTransport\<close>, and the socket of the transport it builds
  was never wrapped in TLS: the connection is not encrypted, and nothing tells the caller.
\<close>

theorem create_transport_tls_iff_dict:
  "(create_transport getaddrinfo host port frame_max opts = Some (r, t) \<longrightarrow>
      (variant t = SSLTransport \<longleftrightarrow> is_dict opts)) \<and>
   (\<not> is_dict opts \<longrightarrow>
      create_transport getaddrinfo host port frame_max opts
        = TCPTransport_init getaddrinfo host port frame_max) \<and>
   (opts = PyDict kwargs \<longrightarrow>
      create_transport getaddrinfo host port frame_max opts
        = SSLTransport_init getaddrinfo host port frame_max kwargs) \<and>
   (\<not> is_dict opts \<and> create_transport getaddrinfo host port frame_max opts = Some (r, t) \<and>
    getaddrinfo host port = Inr res \<and> (\<forall>a \<in> set res. plain_attempt a) \<and> sock t = Some s \<longrightarrow>
      \<not> tls s)"
proof -
  have tcp: "\<not> is_dict opts \<longrightarrow>
      create_transport getaddrinfo host port frame_max opts
        = TCPTransport_init getaddrinfo host port frame_max"
    by (cases opts) (simp_all add: create_transport_def)
  have ssl: "opts = PyDict kwargs \<longrightarrow>
      create_transport getaddrinfo host port frame_max opts
        = SSLTransport_init getaddrinfo host port frame_max kwargs"
    by (simp add: create_transport_def)
  have cls: "create_transport getaddrinfo host port frame_max opts = Some (r, t) \<longrightarrow>
      (variant t = SSLTransport \<longleftrightarrow> is_dict opts)"
  proof
    assume run: "create_transport getaddrinfo host port frame_max opts = Some (r, t)"
    show "variant t = SSLTransport \<longleftrightarrow> is_dict opts"
    proof (cases "is_dict opts")
      case True
      then obtain kw where "opts = PyDict kw" by (cases opts) auto
      with run have "variant t = SSLTransport"
        by (auto simp: create_transport_def SSLTransport_init_def
              dest: AbstractTransport_init_variant)
      with True show ?thesis by simp
    next
      case False
      with run tcp have "variant t = TCPTransport"
        by (auto simp: TCPTransport_init_def dest: AbstractTransport_init_variant)
      with False show ?thesis by simp
    qed
  qed
  have plain: "\<not> is_dict opts \<and>
      create_transport getaddrinfo host port frame_max opts = Some (r, t) \<and>
      getaddrinfo host port = Inr res \<and> (\<forall>a \<in> set res. plain_attempt a) \<and> sock t = Some s \<longrightarrow>
      \<not> tls s"
  proof
    assume a: "\<not> is_dict opts \<and>
      create_transport getaddrinfo host port frame_max opts = Some (r, t) \<and>
      getaddrinfo host port = Inr res \<and> (\<forall>a \<in> set res. plain_attempt a) \<and> sock t = Some s"
    with tcp have "AbstractTransport_init TCPTransport [] (Inr res) frame_max = Some (r, t)"
      by (simp add: TCPTransport_init_def)
    from TCPTransport_init_plain [OF this] a show "\<not> tls s" by blast
  qed
  show ?thesis
    by (rule conjI [OF cls conjI [OF tcp conjI [OF ssl plain]]])
qed

lemma non_dict_run:
  "create_transport demo_resolver ''localhost'' 5672 8 (PyBool True)
     = Some (Inr (), (blank_transport TCPTransport [] 8)
          \<lparr>sock := Some ((plain_socket [] [])\<lparr>wire := AMQP_PROTOCOL_HEADER\<rparr>),
           connected := True\<rparr>)"
  by (simp add: create_transport_def TCPTransport_init_def demo_resolver_def
        AbstractTransport_init_def init_except_def blank_transport_def set_sock_def
        init_try_def init_options_def and_then_def sock_ctl_def setup_transport_def transport_write_def
        TCPTransport_write_def sendall_def AMQP_PROTOCOL_HEADER_def
        accepting_socket_def plain_socket_def)

lemma dict_run:
  "create_transport demo_resolver ''localhost'' 5672 8 (PyDict [(''ca_certs'', ''ca.pem'')])
     = Some (Inr (), (blank_transport SSLTransport [(''ca_certs'', ''ca.pem'')] 8)
          \<lparr>sock := Some ((tls_socket [] [])\<lparr>wire := AMQP_PROTOCOL_HEADER\<rparr>),
           connected := True\<rparr>)"
  by (simp add: create_transport_def SSLTransport_init_def demo_resolver_def
        AbstractTransport_init_def init_except_def blank_transport_def set_sock_def
        init_try_def init_options_def and_then_def sock_ctl_def setup_transport_def transport_write_def
        SSLTransport_write_def write_loop.simps sock_write_def AMQP_PROTOCOL_HEADER_def
        accepting_socket_def plain_socket_def tls_socket_def)

theorem create_transport_tls_iff_dict_witness:
  "create_transport demo_resolver ''localhost'' 5672 8 (PyBool True)
     = Some (Inr (), (blank_transport TCPTransport [] 8)
          \<lparr>sock := Some ((plain_socket [] [])\<lparr>wire := AMQP_PROTOCOL_HEADER\<rparr>),
           connected := True\<rparr>) \<and>
   truthy (PyBool True) \<and> \<not> is_dict (PyBool True) \<and>
   \<not> tls ((plain_socket [] [])\<lparr>wire := AMQP_PROTOCOL_HEADER\<rparr>) \<and>
   create_transport demo_resolver ''localhost'' 5672 8 PyNone
     = TCPTransport_init demo_resolver ''localhost'' 5672 8 \<and>
   create_transport demo_resolver ''localhost'' 5672 8 (PyDict [(''ca_certs'', ''ca.pem'')])
     = Some (Inr (), (blank_transport SSLTransport [(''ca_certs'', ''ca.pem'')] 8)
          \<lparr>sock := Some ((tls_socket [] [])\<lparr>wire := AMQP_PROTOCOL_HEADER\<rparr>),
           connected := True\<rparr>) \<and>
   variant ((blank_transport SSLTransport [(''ca_certs'', ''ca.pem'')] 8)
          \<lparr>sock := Some ((tls_socket [] [])\<lparr>wire := AMQP_PROTOCOL_HEADER\<rparr>),
           connected := True\<rparr>) = SSLTransport"
proof -
  have n: "\<not> is_dict PyNone" by simp
  have d: "is_dict (PyDict [(''ca_certs'', ''ca.pem'')])" by simp
  have h: "\<not> is_dict (PyBool True) \<and>
      create_transport demo_resolver ''localhost'' 5672 8 (PyBool True)
        = Some (Inr (), (blank_transport TCPTransport [] 8)
          \<lparr>sock := Some ((plain_socket [] [])\<lparr>wire := AMQP_PROTOCOL_HEADER\<rparr>),
           connected := True\<rparr>) \<and>
      demo_resolver ''localhost'' 5672 = Inr [Connects accepting_socket] \<and>
      (\<forall>a \<in> set [Connects accepting_socket]. plain_attempt a) \<and>
      sock ((blank_transport TCPTransport [] 8)
          \<lparr>sock := Some ((plain_socket [] [])\<lparr>wire := AMQP_PROTOCOL_HEADER\<rparr>),
           connected := True\<rparr>)
        = Some ((plain_socket [] [])\<lparr>wire := AMQP_PROTOCOL_HEADER\<rparr>)"
    using non_dict_run
    by (simp add: demo_resolver_def accepting_socket_def plain_socket_def)
  from create_transport_tls_iff_dict
         [THEN conjunct2, THEN conjunct2, THEN conjunct2, THEN mp, OF h]
  have "\<not> tls ((plain_socket [] [])\<lparr>wire := AMQP_PROTOCOL_HEADER\<rparr>)" .
  moreover
  from create_transport_tls_iff_dict [THEN conjunct2, THEN conjunct1, THEN mp, OF n]
  have "create_transport demo_resolver ''localhost'' 5672 8 PyNone
     = TCPTransport_init demo_resolver ''localhost'' 5672 8" .
  moreover
  from create_transport_tls_iff_dict [THEN conjunct1, THEN mp, OF dict_run] d
  have "variant ((blank_transport SSLTransport [(''ca_certs'', ''ca.pem'')] 8)
          \<lparr>sock := Some ((tls_socket [] [])\<lparr>wire := AMQP_PROTOCOL_HEADER\<rparr>),
           connected := True\<rparr>) = SSLTransport"
    by blast
  ultimately show ?thesis
    using non_dict_run dict_run by simp
qed

end
